theory Spec2Isabelle
  imports Complex_Main "HOL-Library.AList" "HOL-Library.Char_ord"
begin

section \<open>Data model (types.ts)\<close>

text \<open>
  A JavaScript string is a \<^typ>\<open>string\<close>; each \<^typ>\<open>char\<close> stands for one code unit
  in the range 0..255.
\<close>

subsection \<open>Numbers\<close>

text \<open>
  A JavaScript \<^verbatim>\<open>number\<close> is an IEEE 754 double: a finite value, given by the rational it
  denotes, an infinity or NaN. Negative zero is identified with zero: the sums of the code
  start from \<^verbatim>\<open>0\<close> and so never produce it, and neither the comparisons nor the text of a
  number tell the two apart. Every operation returns the double nearest to the exact result,
  ties going to the even mantissa (\<open>round_double\<close>): 53 bits of mantissa, exponents down to
  the subnormal step \<open>2^-1074\<close>, overflow to an infinity from \<open>2^1024\<close> on.
\<close>

datatype number = Finite rat | PosInfinity | NegInfinity | NaN

text \<open>The number of binary digits of a positive integer.\<close>

function bit_length :: "int \<Rightarrow> int" where
  "bit_length n = (if n \<le> 0 then 0 else 1 + bit_length (n div 2))"
  by pat_completeness auto
termination
  by (relation "measure nat") auto

declare bit_length.simps [simp del]

definition pow2 :: "int \<Rightarrow> rat" where
  "pow2 e = (if 0 \<le> e then 2 ^ nat e else 1 / 2 ^ nat (- e))"

text \<open>For \<open>a > 0\<close>: the exponent \<open>k\<close> with \<open>2^k \<le> a < 2^(k+1)\<close>.\<close>

definition floor_log2 :: "rat \<Rightarrow> int" where
  "floor_log2 a =
     (let k = bit_length (fst (quotient_of a)) - bit_length (snd (quotient_of a))
      in if pow2 k \<le> a then k else k - 1)"

definition round_half_even :: "rat \<Rightarrow> int" where
  "round_half_even r =
     (let f = \<lfloor>r\<rfloor>; t = r - of_int f
      in if t < 1 / 2 then f else if 1 / 2 < t then f + 1 else if even f then f else f + 1)"

definition round_double :: "rat \<Rightarrow> number" where
  "round_double q =
     (if q = 0 then Finite 0
      else
        (let a = \<bar>q\<bar>;
             e = max (floor_log2 a - 52) (- 1074);
             m = round_half_even (a / pow2 e)
         in if 1024 < e + bit_length m then (if 0 < q then PosInfinity else NegInfinity)
            else Finite (if 0 < q then of_int m * pow2 e else - (of_int m * pow2 e))))"

text \<open>The double that a decimal literal of the source denotes.\<close>

definition lit :: "rat \<Rightarrow> number" where
  "lit q = round_double q"

definition number_sign :: "number \<Rightarrow> int" where
  "number_sign x =
     (case x of Finite q \<Rightarrow> (if 0 < q then 1 else if q < 0 then - 1 else 0)
      | PosInfinity \<Rightarrow> 1 | NegInfinity \<Rightarrow> - 1 | NaN \<Rightarrow> 0)"

definition signed_infinity :: "int \<Rightarrow> number" where
  "signed_infinity s = (if 0 < s then PosInfinity else if s < 0 then NegInfinity else NaN)"

text \<open>\<^verbatim>\<open>x + y\<close>\<close>

fun js_add :: "number \<Rightarrow> number \<Rightarrow> number" where
  "js_add (Finite a) (Finite b) = round_double (a + b)"
| "js_add NaN y = NaN"
| "js_add x NaN = NaN"
| "js_add PosInfinity NegInfinity = NaN"
| "js_add NegInfinity PosInfinity = NaN"
| "js_add PosInfinity y = PosInfinity"
| "js_add NegInfinity y = NegInfinity"
| "js_add x PosInfinity = PosInfinity"
| "js_add x NegInfinity = NegInfinity"

text \<open>\<^verbatim>\<open>x * y\<close>\<close>

definition js_mul :: "number \<Rightarrow> number \<Rightarrow> number" where
  "js_mul x y =
     (case (x, y) of
        (Finite a, Finite b) \<Rightarrow> round_double (a * b)
      | other \<Rightarrow> if x = NaN \<or> y = NaN then NaN else signed_infinity (number_sign x * number_sign y))"

text \<open>\<^verbatim>\<open>x / y\<close>; a zero divisor is the positive zero.\<close>

definition js_div :: "number \<Rightarrow> number \<Rightarrow> number" where
  "js_div x y =
     (case (x, y) of
        (Finite a, Finite b) \<Rightarrow> if b = 0 then signed_infinity (number_sign x) else round_double (a / b)
      | (Finite a, other) \<Rightarrow> if y = NaN then NaN else Finite 0
      | (other, Finite b) \<Rightarrow>
          if x = NaN then NaN else signed_infinity (number_sign x * (if b < 0 then - 1 else 1))
      | other \<Rightarrow> NaN)"

text \<open>\<^verbatim>\<open>x < y\<close>, false when an operand is NaN\<close>

fun js_less :: "number \<Rightarrow> number \<Rightarrow> bool" where
  "js_less (Finite a) (Finite b) = (a < b)"
| "js_less (Finite a) PosInfinity = True"
| "js_less NegInfinity (Finite b) = True"
| "js_less NegInfinity PosInfinity = True"
| "js_less x y = False"

text \<open>\<^verbatim>\<open>Math.round(x)\<close>: the nearest integer, a half going up.\<close>

fun js_round :: "number \<Rightarrow> number" where
  "js_round (Finite q) = Finite (of_int \<lfloor>q + 1 / 2\<rfloor>)"
| "js_round x = x"

text \<open>Truthiness of a number: zero and NaN are falsy.\<close>

fun number_truthy :: "number \<Rightarrow> bool" where
  "number_truthy (Finite q) = (q \<noteq> 0)"
| "number_truthy NaN = False"
| "number_truthy x = True"

subsection \<open>Records\<close>

text \<open>\<^verbatim>\<open>Omit<Expense, 'id'>\<close> is the record \<open>ExpenseData\<close>; \<open>Expense\<close> extends it by the id.\<close>

record ExpenseData =
  amount :: number
  merchant :: string
  category :: string
  date :: string
  notes' :: "string option"

record Expense = ExpenseData +
  id' :: string

datatype role = User | Assistant

record Message =
  role :: role
  content :: string
  timestamp :: string

record Preferences =
  currency :: string
  categories :: "string list"

record UserState =
  userId :: string
  expenses :: "Expense list"
  conversations :: "Message list"
  preferences :: Preferences

record SpendingContext =
  totalSpent :: number
  topCategory :: string
  topAmount :: number
  recentExpenses :: "Expense list"
  expenseCount :: nat

section \<open>Platform values\<close>

text \<open>
  The clock and the random source are inputs of a call: \<open>date_now\<close> is \<^verbatim>\<open>Date.now()\<close>,
  \<open>random_tail\<close> is \<^verbatim>\<open>Math.random().toString(36).substr(2, 9)\<close> and \<open>iso_string\<close> is
  \<^verbatim>\<open>new Date().toISOString()\<close>.
\<close>

record Env =
  date_now :: nat
  random_tail :: string
  iso_string :: string

definition digit_char :: "nat \<Rightarrow> char" where
  "digit_char d = char_of (48 + d)"

fun show_nat :: "nat \<Rightarrow> string" where
  "show_nat n = (if n < 10 then [digit_char n] else show_nat (n div 10) @ [digit_char (n mod 10)])"

declare show_nat.simps [simp del]

text \<open>Truthiness of an optional string: \<^verbatim>\<open>undefined\<close> and \<^verbatim>\<open>""\<close> are falsy.\<close>

definition truthy_str :: "string option \<Rightarrow> bool" where
  "truthy_str v = (case v of None \<Rightarrow> False | Some s \<Rightarrow> s \<noteq> [])"

text \<open>\<^verbatim>\<open>a <= b\<close> on strings: lexicographic on the code units.\<close>

fun str_le :: "string \<Rightarrow> string \<Rightarrow> bool" where
  "str_le [] ys = True"
| "str_le (x # xs) [] = False"
| "str_le (x # xs) (y # ys) =
     (if (of_char x :: nat) < of_char y then True
      else if (of_char y :: nat) < of_char x then False
      else str_le xs ys)"

text \<open>\<^verbatim>\<open>xs.slice(-n)\<close>: the last \<open>n\<close> elements, all of them when there are fewer.\<close>

definition slice_last :: "nat \<Rightarrow> 'a list \<Rightarrow> 'a list" where
  "slice_last n xs = drop (length xs - n) xs"

section \<open>JavaScript values and the hosted model\<close>

text \<open>
  The value found under \<^verbatim>\<open>.response\<close> of a model reply. A reply object is represented by
  the two properties the code reads from it, \<^verbatim>\<open>amount\<close> and \<^verbatim>\<open>merchant\<close>; each is absent
  (\<open>None\<close>, for \<^verbatim>\<open>undefined\<close> and \<^verbatim>\<open>null\<close>) or has the type the \<open>Expense\<close> interface
  declares for it. An array is an object without these properties.
\<close>

datatype js = JUndefined | JNull | JBool bool | JNum number | JStr string
  | JObj (obj_amount: "number option") (obj_merchant: "string option")

fun truthy :: "js \<Rightarrow> bool" where
  "truthy JUndefined = False"
| "truthy JNull = False"
| "truthy (JBool b) = b"
| "truthy (JNum n) = number_truthy n"
| "truthy (JStr s) = (s \<noteq> [])"
| "truthy (JObj a m) = True"

text \<open>\<^verbatim>\<open>v.amount\<close> and \<^verbatim>\<open>v.merchant\<close> for a value \<open>v\<close> that is neither \<^verbatim>\<open>undefined\<close> nor \<^verbatim>\<open>null\<close>.\<close>

fun prop_amount :: "js \<Rightarrow> number option" where
  "prop_amount (JObj a m) = a"
| "prop_amount v = None"

fun prop_merchant :: "js \<Rightarrow> string option" where
  "prop_merchant (JObj a m) = m"
| "prop_merchant v = None"

definition truthy_num :: "number option \<Rightarrow> bool" where
  "truthy_num v = (case v of None \<Rightarrow> False | Some n \<Rightarrow> number_truthy n)"

text \<open>
  One call of \<^verbatim>\<open>ai.run\<close> either rejects (with an error message) or returns a value whose
  \<^verbatim>\<open>.response\<close> property is given (\<open>JUndefined\<close> when the property is missing; a returned
  \<^verbatim>\<open>null\<close> or \<^verbatim>\<open>undefined\<close> fails at the property access in each caller exactly where
  \<open>JUndefined\<close> fails at its use, and is not distinguished). The model is an oracle: the
  outcome of the \<open>n\<close>-th call is \<open>behaviour n\<close>, and \<open>call_count\<close> counts the calls made so far.
\<close>

datatype ai_outcome = AiRejects string | AiReturns js

record Ai =
  behaviour :: "nat \<Rightarrow> ai_outcome"
  call_count :: nat

definition run :: "Ai \<Rightarrow> ai_outcome \<times> Ai" where
  "run ai = (behaviour ai (call_count ai), ai\<lparr>call_count := Suc (call_count ai)\<rparr>)"

datatype error =
    CouldNotParse
  | CouldNotUnderstand
  | ModelCallFailed string
  | TypeError

fun error_message :: "error \<Rightarrow> string" where
  "error_message CouldNotParse = ''Could not parse expense. Try format: \"Spent $45 at Chipotle\"''"
| "error_message CouldNotUnderstand = ''Could not understand that expense format.''"
| "error_message (ModelCallFailed m) = m"
| "error_message TypeError = ''TypeError''"

section \<open>Strings\<close>

text \<open>White space of \<^verbatim>\<open>trim\<close> and of \<^verbatim>\<open>\s\<close>, among the code units 0..255.\<close>

definition is_space :: "char \<Rightarrow> bool" where
  "is_space c = (c \<in> set [CHR 0x09, CHR 0x0A, CHR 0x0B, CHR 0x0C, CHR 0x0D, CHR 0x20, CHR 0xA0])"

definition trim :: "string \<Rightarrow> string" where
  "trim s = rev (dropWhile is_space (rev (dropWhile is_space s)))"

definition starts_with :: "string \<Rightarrow> string \<Rightarrow> bool" where
  "starts_with p s = (take (length p) s = p)"

text \<open>\<^verbatim>\<open>s.includes(p)\<close>\<close>

fun includes_str :: "string \<Rightarrow> string \<Rightarrow> bool" where
  "includes_str p [] = (p = [])"
| "includes_str p (x # xs) = (starts_with p (x # xs) \<or> includes_str p xs)"

definition show_int :: "int \<Rightarrow> string" where
  "show_int i = (if i < 0 then ''-'' @ show_nat (nat (- i)) else show_nat (nat i))"

section \<open>Regular expressions\<close>

text \<open>
  The regular expressions of the source are written as syntax trees and matched with
  JavaScript's backtracking order. \<open>matches ic r (caps, s)\<close> lists every way \<open>r\<close> can match
  a prefix of \<open>s\<close>, as the captures and the rest of the input after the match, in the order
  in which a backtracking matcher tries them: the left alternative before the right one, a
  greedy quantifier from the longest repetition down, a lazy one from the shortest up. The
  head of the list is the match JavaScript reports. \<open>ic\<close> is the flag \<^verbatim>\<open>i\<close>; the literals of
  the source are ASCII, for which ignoring case is comparing ASCII upper-case forms.
  Quantifiers other than \<^verbatim>\<open>?\<close> are applied to character classes only, as in the source.
\<close>

datatype cclass = Digit | Space | Dot | OneOf string

fun in_class :: "cclass \<Rightarrow> char \<Rightarrow> bool" where
  "in_class Digit c = (c \<in> set ''0123456789'')"
| "in_class Space c = is_space c"
| "in_class Dot c = (c \<noteq> CHR 0x0A \<and> c \<noteq> CHR 0x0D)"
| "in_class (OneOf cs) c = (c \<in> set cs)"

datatype regex =
    Lit string
  | Seq regex regex
  | Alt regex regex
  | Opt regex
  | Star cclass
  | Plus cclass
  | PlusLazy cclass
  | Times nat cclass
  | Group nat regex
  | End

fun seqs :: "regex list \<Rightarrow> regex" where
  "seqs [] = Lit []"
| "seqs [r] = r"
| "seqs (r # rs) = Seq r (seqs rs)"

fun alts :: "regex list \<Rightarrow> regex" where
  "alts [] = Lit []"
| "alts [r] = r"
| "alts (r # rs) = Alt r (alts rs)"

definition ascii_upper :: "char \<Rightarrow> char" where
  "ascii_upper c =
     (if 97 \<le> (of_char c :: nat) \<and> (of_char c :: nat) \<le> 122 then char_of (of_char c - 32 :: nat) else c)"

definition lit_matches :: "bool \<Rightarrow> string \<Rightarrow> string \<Rightarrow> bool" where
  "lit_matches ic l s =
     (if ic then map ascii_upper (take (length l) s) = map ascii_upper l
      else take (length l) s = l)"

type_synonym captures = "nat \<rightharpoonup> string"

text \<open>The number of leading characters of \<open>s\<close> in the class.\<close>

definition run_length :: "cclass \<Rightarrow> string \<Rightarrow> nat" where
  "run_length k s = length (takeWhile (in_class k) s)"

fun matches :: "bool \<Rightarrow> regex \<Rightarrow> captures \<times> string \<Rightarrow> (captures \<times> string) list" where
  "matches ic (Lit l) (caps, s) = (if lit_matches ic l s then [(caps, drop (length l) s)] else [])"
| "matches ic (Seq a b) st = concat (map (matches ic b) (matches ic a st))"
| "matches ic (Alt a b) st = matches ic a st @ matches ic b st"
| "matches ic (Opt a) st = matches ic a st @ [st]"
| "matches ic (Star k) (caps, s) = map (\<lambda>n. (caps, drop n s)) (rev [0 ..< Suc (run_length k s)])"
| "matches ic (Plus k) (caps, s) = map (\<lambda>n. (caps, drop n s)) (rev [1 ..< Suc (run_length k s)])"
| "matches ic (PlusLazy k) (caps, s) = map (\<lambda>n. (caps, drop n s)) [1 ..< Suc (run_length k s)]"
| "matches ic (Times n k) (caps, s) = (if n \<le> run_length k s then [(caps, drop n s)] else [])"
| "matches ic (Group i a) (caps, s) =
     map (\<lambda>(caps1, rest). (caps1(i \<mapsto> take (length s - length rest) s), rest)) (matches ic a (caps, s))"
| "matches ic End (caps, s) = (if s = [] then [(caps, s)] else [])"

text \<open>
  \<^verbatim>\<open>s.match(r)\<close> for a regular expression without the flag \<^verbatim>\<open>g\<close>: the first start
  position, from the left, at which \<open>r\<close> matches. The result is the index of the match, its
  captures and the input after the match.
\<close>

fun exec_from :: "bool \<Rightarrow> regex \<Rightarrow> nat \<Rightarrow> string \<Rightarrow> (nat \<times> captures \<times> string) option" where
  "exec_from ic r i [] =
     (case matches ic r (Map.empty, []) of [] \<Rightarrow> None | (caps, rest) # others \<Rightarrow> Some (i, caps, rest))"
| "exec_from ic r i (x # xs) =
     (case matches ic r (Map.empty, x # xs) of
        [] \<Rightarrow> exec_from ic r (Suc i) xs
      | (caps, rest) # others \<Rightarrow> Some (i, caps, rest))"

definition exec :: "bool \<Rightarrow> regex \<Rightarrow> string \<Rightarrow> (nat \<times> captures \<times> string) option" where
  "exec ic r s = exec_from ic r 0 s"

text \<open>\<^verbatim>\<open>s.replace(r, rep)\<close> without the flag \<^verbatim>\<open>g\<close>: the first match is replaced.\<close>

definition replace_first :: "bool \<Rightarrow> regex \<Rightarrow> string \<Rightarrow> string \<Rightarrow> string" where
  "replace_first ic r rep s =
     (case exec ic r s of None \<Rightarrow> s | Some (i, caps, rest) \<Rightarrow> take i s @ rep @ rest)"

text \<open>
  \<^verbatim>\<open>s.replace(r, rep)\<close> with the flag \<^verbatim>\<open>g\<close>: every match, from the left, is replaced; after
  an empty match one character is copied.
\<close>

function replace_all :: "bool \<Rightarrow> regex \<Rightarrow> string \<Rightarrow> string \<Rightarrow> string" where
  "replace_all ic r rep s =
     (case matches ic r (Map.empty, s) of
        [] \<Rightarrow> (case s of [] \<Rightarrow> [] | x # t \<Rightarrow> x # replace_all ic r rep t)
      | (caps, rest) # others \<Rightarrow>
          (if length rest < length s then rep @ replace_all ic r rep rest
           else (case s of [] \<Rightarrow> rep | x # t \<Rightarrow> rep @ x # replace_all ic r rep t)))"
  by pat_completeness auto
termination
  by (relation "measure (\<lambda>(ic, r, rep, s). length s)") auto

declare replace_all.simps [simp del]

text \<open>
  \<^verbatim>\<open>s.split(r)[0]\<close> for a separator \<open>r\<close> that matches no empty string: the input up to the
  first match of the separator, the whole input when there is none.
\<close>

definition split_first :: "bool \<Rightarrow> regex \<Rightarrow> string \<Rightarrow> string" where
  "split_first ic r s = (case exec ic r s of None \<Rightarrow> s | Some (i, caps, rest) \<Rightarrow> take i s)"

text \<open>
  \<^verbatim>\<open>parseFloat\<close> on the text of a capture group \<^verbatim>\<open>\d+(?:\.\d{2})?\<close>: digits, then possibly a
  point and more digits; the result is the double nearest to the decimal value, and NaN when
  there is no leading digit.
\<close>

definition digit_value :: "char \<Rightarrow> nat" where
  "digit_value c = of_char c - 48"

definition digits_value :: "string \<Rightarrow> int" where
  "digits_value ds = foldl (\<lambda>n c. 10 * n + int (digit_value c)) 0 ds"

definition parseFloat :: "string \<Rightarrow> number" where
  "parseFloat s =
     (let ip = takeWhile (in_class Digit) s;
          rest = drop (length ip) s;
          fp = (case rest of [] \<Rightarrow> [] | c # r \<Rightarrow> if c = CHR ''.'' then takeWhile (in_class Digit) r else [])
      in if ip = [] then NaN
         else round_double (of_int (digits_value ip) + of_int (digits_value fp) / 10 ^ length fp))"

section \<open>Expense Categorizer (categorizer.ts)\<close>

definition validCategories :: "string list" where
  "validCategories = [''Food'', ''Transport'', ''Shopping'', ''Bills'', ''Other'']"

text \<open>
  The result \<^verbatim>\<open>{category, confidence}\<close> is the pair \<open>(category, confidence)\<close>. The prompt
  sent to the model is not represented, so merchant and amount do not influence the result.
  Both a rejected call and a reply without text (\<^verbatim>\<open>response.response.trim()\<close> raises) end
  in the \<^verbatim>\<open>catch\<close> block.
\<close>

definition categorizeExpense :: "Ai \<Rightarrow> string \<Rightarrow> number \<Rightarrow> (string \<times> number) \<times> Ai" where
  "categorizeExpense ai merchant_arg amount_arg =
     (case run ai of (response, ai1) \<Rightarrow>
        (case response of
           AiRejects msg \<Rightarrow> ((''Other'', lit (3 / 10)), ai1)
         | AiReturns (JStr s) \<Rightarrow>
             (let category = trim s in
              if category \<in> set validCategories then ((category, lit (95 / 100)), ai1)
              else ((''Other'', lit (5 / 10)), ai1))
         | AiReturns other \<Rightarrow> ((''Other'', lit (3 / 10)), ai1)))"

text \<open>
  The text of a number that \<^verbatim>\<open>Math.round\<close> returned, inside a template literal: decimal
  digits (JavaScript changes to exponent notation from \<open>10^21\<close> on, which the categorizer's
  confidences never reach).
\<close>

definition rounded_text :: "number \<Rightarrow> string" where
  "rounded_text x =
     (case x of Finite q \<Rightarrow> show_int \<lfloor>q\<rfloor> | PosInfinity \<Rightarrow> ''Infinity''
      | NegInfinity \<Rightarrow> ''-Infinity'' | NaN \<Rightarrow> ''NaN'')"

text \<open>\<^verbatim>\<open>`Auto-categorized as ${category} (${Math.round(confidence * 100)}% confidence)`\<close>\<close>

definition auto_note :: "string \<Rightarrow> number \<Rightarrow> string" where
  "auto_note category_arg confidence =
     ''Auto-categorized as '' @ category_arg @ '' (''
       @ rounded_text (js_round (js_mul confidence (Finite 100))) @ ''% confidence)''"


section \<open>The per-user durable object (UserAgent)\<close>

text \<open>
  \<open>state\<close> is the in-memory \<^verbatim>\<open>this.state\<close>, \<open>storage\<close> the value under the storage key
  \<^verbatim>\<open>'state'\<close> (\<open>None\<close> before the first put), \<open>env_AI\<close> the binding \<^verbatim>\<open>this.env.AI\<close>.
  Every method takes the agent and returns its result with the agent after the call.
  Storage reads and writes always succeed.
\<close>

record UserAgent =
  state :: UserState
  storage :: "UserState option"
  env_AI :: Ai

definition constructor :: "UserState option \<Rightarrow> Ai \<Rightarrow> UserAgent" where
  "constructor stored ai =
     \<lparr>state = \<lparr>userId = [], expenses = [], conversations = [],
                preferences = \<lparr>currency = ''USD'',
                                categories = [''Food'', ''Transport'', ''Shopping'', ''Bills'', ''Other'']\<rparr>\<rparr>,
      storage = stored, env_AI = ai\<rparr>"

definition saveState :: "UserAgent \<Rightarrow> UserAgent" where
  "saveState ag = ag\<lparr>storage := Some (state ag)\<rparr>"

definition initialize :: "string \<Rightarrow> UserAgent \<Rightarrow> UserAgent" where
  "initialize uid ag =
     (case storage ag of
        Some stored \<Rightarrow> ag\<lparr>state := stored\<rparr>
      | None \<Rightarrow> saveState (ag\<lparr>state := (state ag)\<lparr>userId := uid\<rparr>\<rparr>))"

definition addExpense :: "Env \<Rightarrow> ExpenseData \<Rightarrow> UserAgent \<Rightarrow> Expense \<times> UserAgent" where
  "addExpense env expense ag =
     (let newExpense =
            \<lparr>amount = amount expense, merchant = merchant expense, category = category expense,
             date = date expense, notes' = notes' expense,
             id' = ''exp_'' @ show_nat (date_now env) @ ''_'' @ random_tail env\<rparr>;
          ag1 = ag\<lparr>state := (state ag)\<lparr>expenses := expenses (state ag) @ [newExpense]\<rparr>\<rparr>
      in (newExpense, saveState ag1))"

record Filters =
  startDate :: "string option"
  endDate :: "string option"
  filter_category :: "string option"

text \<open>\<^verbatim>\<open>filters?.f\<close>: \<^verbatim>\<open>undefined\<close> when there is no filters object.\<close>

definition opt_field :: "(Filters \<Rightarrow> string option) \<Rightarrow> Filters option \<Rightarrow> string option" where
  "opt_field f filters = (case filters of None \<Rightarrow> None | Some fs \<Rightarrow> f fs)"

definition getExpenses :: "Filters option \<Rightarrow> UserAgent \<Rightarrow> Expense list \<times> UserAgent" where
  "getExpenses filters ag =
     (let filtered0 = expenses (state ag);
          filtered1 = (if truthy_str (opt_field startDate filters)
                       then filter (\<lambda>e. str_le (the (opt_field startDate filters)) (date e)) filtered0
                       else filtered0);
          filtered2 = (if truthy_str (opt_field endDate filters)
                       then filter (\<lambda>e. str_le (date e) (the (opt_field endDate filters))) filtered1
                       else filtered1);
          filtered3 = (if truthy_str (opt_field filter_category filters)
                       then filter (\<lambda>e. category e = the (opt_field filter_category filters)) filtered2
                       else filtered2)
      in (filtered3, ag))"


definition getConversations :: "UserAgent \<Rightarrow> Message list \<times> UserAgent" where
  "getConversations ag = (conversations (state ag), ag)"

section \<open>Totals objects\<close>

text \<open>
  \<^verbatim>\<open>const categoryTotals: Record<string, number> = {}\<close> is a plain object used as a
  dictionary. It is modelled as the list of its own properties in creation order; writing an
  existing key keeps its place, a new key goes to the end. \<^verbatim>\<open>Object.entries\<close> lists the keys
  that are array indices (canonical decimal numerals up to \<open>2^32 - 2\<close>) first, in ascending
  numeric order, and then the other keys in creation order. Category names that are property
  names of \<^verbatim>\<open>Object.prototype\<close> (\<open>object_prototype_names\<close>) read as inherited, non-numeric
  values from the empty object; the model does not cover them.
\<close>

type_synonym totals = "(string \<times> number) list"

definition object_prototype_names :: "string list" where
  "object_prototype_names =
     [''constructor'', ''__proto__'', ''toString'', ''toLocaleString'', ''valueOf'',
      ''hasOwnProperty'', ''isPrototypeOf'', ''propertyIsEnumerable'',
      ''__defineGetter__'', ''__defineSetter__'', ''__lookupGetter__'', ''__lookupSetter__'']"

text \<open>\<^verbatim>\<open>v || 0\<close> for a number or \<^verbatim>\<open>undefined\<close>\<close>

definition or_zero :: "number option \<Rightarrow> number" where
  "or_zero v = (case v of None \<Rightarrow> Finite 0 | Some n \<Rightarrow> if number_truthy n then n else Finite 0)"

definition is_array_index :: "string \<Rightarrow> bool" where
  "is_array_index k =
     (k \<noteq> [] \<and> list_all (in_class Digit) k \<and> (k = ''0'' \<or> hd k \<noteq> CHR ''0'') \<and>
      digits_value k \<le> 4294967294)"

definition object_entries :: "totals \<Rightarrow> totals" where
  "object_entries obj =
     sort_key (\<lambda>kv. digits_value (fst kv)) (filter (\<lambda>kv. is_array_index (fst kv)) obj) @
     filter (\<lambda>kv. \<not> is_array_index (fst kv)) obj"

text \<open>
  \<^verbatim>\<open>expenses.forEach(e => { categoryTotals[e.category] = (categoryTotals[e.category] || 0) + e.amount; })\<close>
  (the same loop is in \<^verbatim>\<open>getSpendingContext\<close>, \<^verbatim>\<open>chatWithAI\<close> and \<^verbatim>\<open>calculateTrends\<close>)
\<close>

definition category_totals :: "Expense list \<Rightarrow> totals" where
  "category_totals es =
     foldl (\<lambda>obj e. AList.update (category e) (js_add (or_zero (map_of obj (category e))) (amount e)) obj)
       [] es"

text \<open>
  \<^verbatim>\<open>Array.prototype.sort\<close> with a comparison function is a stable sort: \<open>stays x y\<close> says
  that \<open>x\<close>, which stands before \<open>y\<close>, stays before it (the comparison function returns no
  positive number for them).
\<close>

fun insert_by :: "('a \<Rightarrow> 'a \<Rightarrow> bool) \<Rightarrow> 'a \<Rightarrow> 'a list \<Rightarrow> 'a list" where
  "insert_by stays x [] = [x]"
| "insert_by stays x (y # ys) = (if stays x y then x # y # ys else y # insert_by stays x ys)"

definition stable_sort :: "('a \<Rightarrow> 'a \<Rightarrow> bool) \<Rightarrow> 'a list \<Rightarrow> 'a list" where
  "stable_sort stays xs = foldr (insert_by stays) xs []"

text \<open>
  The comparison function \<^verbatim>\<open>([, a], [, b]) => b - a\<close>: the difference \<^verbatim>\<open>b - a\<close> is positive
  exactly when \<^verbatim>\<open>a < b\<close> (the difference of two different doubles is never rounded to zero,
  and a NaN result, as for two infinite totals, counts as 0).
\<close>

definition descending :: "string \<times> number \<Rightarrow> string \<times> number \<Rightarrow> bool" where
  "descending x y = (\<not> js_less (snd x) (snd y))"

text \<open>
  \<^verbatim>\<open>Object.entries(totals).sort(([, a], [, b]) => b - a)[0]\<close>; \<open>None\<close> is \<^verbatim>\<open>undefined\<close> (no
  entry).
\<close>

definition top_entry :: "totals \<Rightarrow> (string \<times> number) option" where
  "top_entry obj =
     (case stable_sort descending (object_entries obj) of [] \<Rightarrow> None | kv # rest \<Rightarrow> Some kv)"

definition getSpendingContext :: "UserAgent \<Rightarrow> SpendingContext \<times> UserAgent" where
  "getSpendingContext ag =
     (let es = expenses (state ag);
          total = foldl (\<lambda>sum e. js_add sum (amount e)) (Finite 0) es;
          categoryTotals = category_totals es;
          top = top_entry categoryTotals;
          recent = slice_last 5 es
      in (\<lparr>totalSpent = total,
           topCategory = (case top of Some kv \<Rightarrow> fst kv | None \<Rightarrow> ''Unknown''),
           topAmount = (case top of Some kv \<Rightarrow> snd kv | None \<Rightarrow> Finite 0),
           recentExpenses = recent,
           expenseCount = length es\<rparr>, ag))"

section \<open>Chat Extractor (the pattern loop of the chat route)\<close>

text \<open>\<^verbatim>\<open>\d+(?:\.\d{2})?\<close>\<close>

definition amount_re :: regex where
  "amount_re = Seq (Plus Digit) (Opt (Seq (Lit ''.'') (Times 2 Digit)))"

definition bs :: string where
  "bs = [CHR 0x5C]"

text \<open>
  Each pattern is given by the text of \<^verbatim>\<open>pattern.toString()\<close> and by its syntax tree; all
  three carry the flag \<^verbatim>\<open>i\<close>. \<open>bs\<close> is the backslash.
\<close>

definition spent_pattern :: "string \<times> regex" where
  "spent_pattern =
     (''/(?:spent|paid|bought|cost|costs)'' @ bs @ ''s*'' @ bs @ ''$?(''
        @ bs @ ''d+(?:'' @ bs @ ''.'' @ bs @ ''d{2})?)'' @ bs @ ''s*(?:at|on|for)?'' @ bs @ ''s*(.+)/i'',
      seqs [alts [Lit ''spent'', Lit ''paid'', Lit ''bought'', Lit ''cost'', Lit ''costs''],
            Star Space, Opt (Lit ''$''), Group 1 amount_re, Star Space,
            Opt (alts [Lit ''at'', Lit ''on'', Lit ''for'']), Star Space, Group 2 (Plus Dot)])"

definition dollar_pattern :: "string \<times> regex" where
  "dollar_pattern =
     (''/'' @ bs @ ''$(''
        @ bs @ ''d+(?:'' @ bs @ ''.'' @ bs @ ''d{2})?)'' @ bs @ ''s*(?:at|on|for)'' @ bs @ ''s*(.+)/i'',
      seqs [Lit ''$'', Group 1 amount_re, Star Space,
            alts [Lit ''at'', Lit ''on'', Lit ''for''], Star Space, Group 2 (Plus Dot)])"

definition bought_pattern :: "string \<times> regex" where
  "bought_pattern =
     (''/(?:bought|got)'' @ bs @ ''s+(.+?)'' @ bs @ ''s+for'' @ bs @ ''s+'' @ bs @ ''$?(''
        @ bs @ ''d+(?:'' @ bs @ ''.'' @ bs @ ''d{2})?)/i'',
      seqs [alts [Lit ''bought'', Lit ''got''], Plus Space, Group 1 (PlusLazy Dot), Plus Space,
            Lit ''for'', Plus Space, Opt (Lit ''$''), Group 2 amount_re])"

definition expensePatterns :: "(string \<times> regex) list" where
  "expensePatterns = [spent_pattern, dollar_pattern, bought_pattern]"

text \<open>\<^verbatim>\<open>/[.,!?;]+$/\<close>\<close>

definition trailing_punctuation :: regex where
  "trailing_punctuation = Seq (Plus (OneOf ''.,!?;'')) End"

text \<open>\<^verbatim>\<open>/\s+(today|yesterday|just now)/i\<close>\<close>

definition temporal_qualifier :: regex where
  "temporal_qualifier =
     Seq (Plus Space) (Group 1 (alts [Lit ''today'', Lit ''yesterday'', Lit ''just now'']))"

text \<open>\<^verbatim>\<open>new Date().toISOString().split('T')[0]\<close>\<close>

definition today :: "Env \<Rightarrow> string" where
  "today env = takeWhile (\<lambda>c. c \<noteq> CHR ''T'') (iso_string env)"

text \<open>
  The body of the \<^verbatim>\<open>try\<close> block up to the cleanup of the merchant name: \<open>None\<close> when the
  pattern does not match (or a group is \<^verbatim>\<open>undefined\<close>, where \<^verbatim>\<open>.trim()\<close> raises and the
  \<^verbatim>\<open>catch\<close> moves on), otherwise the amount and the cleaned merchant.
\<close>

definition extract_fields :: "string \<times> regex \<Rightarrow> string \<Rightarrow> (number \<times> string) option" where
  "extract_fields pattern message =
     (case exec True (snd pattern) message of
        None \<Rightarrow> None
      | Some (i, caps, rest) \<Rightarrow>
          (case (caps 1, caps 2) of
             (Some g1, Some g2) \<Rightarrow>
               (let (amount_v, merchant0) =
                      (if includes_str ''bought|got'' (fst pattern)
                       then (parseFloat g2, trim g1)
                       else (parseFloat g1, trim g2));
                    merchant_v = trim (split_first True temporal_qualifier
                                   (replace_first False trailing_punctuation [] merchant0))
                in Some (amount_v, merchant_v))
           | other \<Rightarrow> None))"

text \<open>\<^verbatim>\<open>amount > 0\<close>, false for NaN\<close>

definition positive :: "number \<Rightarrow> bool" where
  "positive v = js_less (Finite 0) v"

text \<open>
  The loop \<^verbatim>\<open>for (const pattern of expensePatterns)\<close> of the chat route; the result is the
  flag \<^verbatim>\<open>expenseAdded\<close>.
\<close>

fun fetch_chat_extract :: "(string \<times> regex) list \<Rightarrow> Env \<Rightarrow> string \<Rightarrow> UserAgent \<Rightarrow> bool \<times> UserAgent" where
  "fetch_chat_extract [] env message ag = (False, ag)"
| "fetch_chat_extract (pattern # patterns) env message ag =
     (case extract_fields pattern message of
        None \<Rightarrow> fetch_chat_extract patterns env message ag
      | Some (amount_v, merchant_v) \<Rightarrow>
          if positive amount_v \<and> length merchant_v > 0 then
            (case categorizeExpense (env_AI ag) merchant_v amount_v of
               ((category_v, confidence), ai1) \<Rightarrow>
                 (True, snd (addExpense env
                        \<lparr>amount = amount_v, merchant = merchant_v, category = category_v,
                         date = today env, notes' = Some ''Added via chat''\<rparr>
                        (ag\<lparr>env_AI := ai1\<rparr>))))
          else fetch_chat_extract patterns env message ag)"

section \<open>Free-text expenses (parseAndAddExpense and its route)\<close>

text \<open>\<^verbatim>\<open>/```json\n?/g\<close> and \<^verbatim>\<open>/```\n?/g\<close>\<close>

definition fence_json :: regex where
  "fence_json = Seq (Lit ''```json'') (Opt (Lit [CHR 0x0A]))"

definition fence :: regex where
  "fence = Seq (Lit ''```'') (Opt (Lit [CHR 0x0A]))"

definition strip_fences :: "string \<Rightarrow> string" where
  "strip_fences s = replace_all False fence [] (replace_all False fence_json [] (trim s))"

text \<open>
  The \<^verbatim>\<open>try\<close> block that normalises the reply: an object is taken as it is, a string is
  stripped of code fences and handed to \<^verbatim>\<open>JSON.parse\<close> (the parameter \<open>json_parse\<close>, \<open>None\<close>
  when it raises), anything else raises; every exception becomes \<open>CouldNotParse\<close>.
\<close>

definition normalise_reply :: "(string \<Rightarrow> js option) \<Rightarrow> js \<Rightarrow> error + js" where
  "normalise_reply json_parse response =
     (case response of
        JObj a m \<Rightarrow> Inr (JObj a m)
      | JStr s \<Rightarrow> (case json_parse (strip_fences s) of None \<Rightarrow> Inl CouldNotParse | Some v \<Rightarrow> Inr v)
      | other \<Rightarrow> Inl CouldNotParse)"

definition parseAndAddExpense ::
  "(string \<Rightarrow> js option) \<Rightarrow> Env \<Rightarrow> string \<Rightarrow> UserAgent \<Rightarrow> (error + Expense) \<times> UserAgent" where
  "parseAndAddExpense json_parse env text_arg ag =
     (case run (env_AI ag) of (parseResponse, ai1) \<Rightarrow>
        (let ag1 = ag\<lparr>env_AI := ai1\<rparr> in
         case parseResponse of
           AiRejects msg \<Rightarrow> (Inl (ModelCallFailed msg), ag1)
         | AiReturns response \<Rightarrow>
             (case normalise_reply json_parse response of
                Inl e \<Rightarrow> (Inl e, ag1)
              | Inr parsed \<Rightarrow>
                  if \<not> truthy parsed \<or> \<not> truthy_num (prop_amount parsed)
                       \<or> \<not> truthy_str (prop_merchant parsed)
                  then (Inl CouldNotUnderstand, ag1)
                  else
                    (case categorizeExpense ai1 (the (prop_merchant parsed)) (the (prop_amount parsed)) of
                       ((category_v, confidence), ai2) \<Rightarrow>
                         (case addExpense env
                                 \<lparr>amount = the (prop_amount parsed),
                                  merchant = the (prop_merchant parsed),
                                  category = category_v, date = today env,
                                  notes' = Some (auto_note category_v confidence)\<rparr>
                                 (ag\<lparr>env_AI := ai2\<rparr>) of
                            (expense, ag2) \<Rightarrow> (Inr expense, ag2))))))"

section \<open>Routes of fetch\<close>

text \<open>
  Each route is the call of \<open>initialize\<close> that \<^verbatim>\<open>fetch\<close> makes first, followed by the body
  of one branch of \<^verbatim>\<open>fetch\<close>; the request is given by the query parameter \<^verbatim>\<open>userId\<close> and
  the parsed body. The result is the response and the agent after the request.
\<close>

datatype response_body =
    ExpenseResult bool Expense
  | ErrorResult bool string

record Response =
  status :: nat
  body :: response_body

text \<open>\<^verbatim>\<open>url.searchParams.get('userId') || 'default'\<close>\<close>

definition userId_of :: "string option \<Rightarrow> string" where
  "userId_of param = (if truthy_str param then the param else ''default'')"

text \<open>
  The body of \<^verbatim>\<open>POST /expenses\<close>, with the fields of the interface table: category and
  notes may be missing.
\<close>

record ExpenseBody =
  body_merchant :: string
  body_amount :: number
  body_category :: "string option"
  body_notes :: "string option"
  body_date :: string

definition fetch_POST_expenses :: "string option \<Rightarrow> Env \<Rightarrow> ExpenseBody \<Rightarrow> UserAgent \<Rightarrow> Response \<times> UserAgent" where
  "fetch_POST_expenses param env body0 ag =
     (let ag0 = initialize (userId_of param) ag;
          (body1, ag1) =
            (if \<not> truthy_str (body_category body0) then
               (case categorizeExpense (env_AI ag0) (body_merchant body0) (body_amount body0) of
                  ((category_v, confidence), ai1) \<Rightarrow>
                    (let b = body0\<lparr>body_category := Some category_v\<rparr> in
                     (if \<not> truthy_str (body_notes b)
                      then b\<lparr>body_notes := Some (auto_note category_v confidence)\<rparr>
                      else b,
                      ag0\<lparr>env_AI := ai1\<rparr>)))
             else (body0, ag0));
          (expense, ag2) =
            addExpense env
              \<lparr>amount = body_amount body1, merchant = body_merchant body1,
               category = the (body_category body1), date = body_date body1,
               notes' = body_notes body1\<rparr> ag1
      in (\<lparr>status = 200, body = ExpenseResult True expense\<rparr>, ag2))"

definition fetch_POST_expenses_parse ::
  "(string \<Rightarrow> js option) \<Rightarrow> string option \<Rightarrow> Env \<Rightarrow> string \<Rightarrow> UserAgent \<Rightarrow> Response \<times> UserAgent" where
  "fetch_POST_expenses_parse json_parse param env text_arg ag =
     (case parseAndAddExpense json_parse env text_arg (initialize (userId_of param) ag) of
        (Inr expense, ag1) \<Rightarrow> (\<lparr>status = 200, body = ExpenseResult True expense\<rparr>, ag1)
      | (Inl e, ag1) \<Rightarrow> (\<lparr>status = 400, body = ErrorResult False (error_message e)\<rparr>, ag1))"

section \<open>Insight Analyzer (insights.ts)\<close>

datatype pattern_type = time_of_day | day_of_week | category_pattern

record SpendingPattern =
  type' :: pattern_type
  insight :: string
  recommendation :: string

record WeekendVsWeekday =
  weekend :: number
  weekday :: number

record Trends =
  weekendVsWeekday :: WeekendVsWeekday
  categoryDistribution :: totals

record SpendingPersonality =
  personality :: string
  description :: string
  patterns :: "SpendingPattern list"
  trends :: Trends

text \<open>
  The platform functions the analyzer relies on: \<open>get_day\<close> is
  \<^verbatim>\<open>new Date(date).getDay()\<close> (\<open>None\<close> for an invalid date) and \<open>number_to_string\<close> the text
  of a number inside a template literal.
\<close>

record Platform =
  get_day :: "string \<Rightarrow> nat option"
  number_to_string :: "number \<Rightarrow> string"

definition calculateTrends :: "Platform \<Rightarrow> Expense list \<Rightarrow> Trends" where
  "calculateTrends pf es =
     (let weekendTotal =
            foldl (\<lambda>sum e. js_add sum (amount e)) (Finite 0)
              (filter (\<lambda>e. get_day pf (date e) = Some 0 \<or> get_day pf (date e) = Some 6) es);
          weekdayTotal =
            foldl (\<lambda>sum e. js_add sum (amount e)) (Finite 0)
              (filter (\<lambda>e. case get_day pf (date e) of None \<Rightarrow> False | Some d \<Rightarrow> 1 \<le> d \<and> d \<le> 5) es);
          categoryTotals = category_totals es
      in \<lparr>weekendVsWeekday = \<lparr>weekend = weekendTotal, weekday = weekdayTotal\<rparr>,
          categoryDistribution = categoryTotals\<rparr>)"

definition generatePatterns :: "Platform \<Rightarrow> Expense list \<Rightarrow> Trends \<Rightarrow> SpendingPattern list" where
  "generatePatterns pf es tr =
     (let we = weekend (weekendVsWeekday tr);
          wd = weekday (weekendVsWeekday tr);
          patterns0 =
            (if js_less (js_mul wd (lit (13 / 10))) we then
               [\<lparr>type' = day_of_week,
                 insight = ''You spend ''
                            @ number_to_string pf
                                (js_round (js_mul (js_div we (js_add we wd)) (Finite 100)))
                            @ ''% of your money on weekends'',
                 recommendation = ''Consider setting a weekend spending cap to balance fun with savings''\<rparr>]
             else [])
      in case top_entry (categoryDistribution tr) of
           None \<Rightarrow> patterns0
         | Some kv \<Rightarrow>
             (let percentage =
                    js_round (js_mul (js_div (snd kv)
                                        (foldl (\<lambda>sum e. js_add sum (amount e)) (Finite 0) es))
                                (Finite 100))
              in patterns0 @
                 [\<lparr>type' = category_pattern,
                   insight = fst kv @ '' is '' @ number_to_string pf percentage @ ''% of your spending'',
                   recommendation =
                     (if js_less (Finite 40) percentage
                      then ''Try diversifying your spending or reducing '' @ fst kv @ '' expenses''
                      else ''Your '' @ fst kv @ '' spending looks balanced'')\<rparr>]))"

definition getting_started :: SpendingPersonality where
  "getting_started =
     \<lparr>personality = ''Getting Started'',
      description = ''Add more expenses to see your spending personality!'',
      patterns = [],
      trends = \<lparr>weekendVsWeekday = \<lparr>weekend = Finite 0, weekday = Finite 0\<rparr>,
                categoryDistribution = []\<rparr>\<rparr>"

text \<open>
  Nothing catches here: a rejected call, and a reply without text (\<^verbatim>\<open>.trim()\<close> raises a
  \<^verbatim>\<open>TypeError\<close>), leave the function as an exception. The second call is made after the
  personality has been read from the first reply.
\<close>

definition analyzeSpendingPatterns ::
  "Platform \<Rightarrow> Ai \<Rightarrow> Expense list \<Rightarrow> (error + SpendingPersonality) \<times> Ai" where
  "analyzeSpendingPatterns pf ai es =
     (if length es < 5 then (Inr getting_started, ai)
      else
        (let trends_v = calculateTrends pf es in
         case run ai of (response, ai1) \<Rightarrow>
           (case response of
              AiRejects msg \<Rightarrow> (Inl (ModelCallFailed msg), ai1)
            | AiReturns (JStr s) \<Rightarrow>
                (let personality_v = trim s in
                 case run ai1 of (descResponse, ai2) \<Rightarrow>
                   (case descResponse of
                      AiRejects msg \<Rightarrow> (Inl (ModelCallFailed msg), ai2)
                    | AiReturns (JStr d) \<Rightarrow>
                        (Inr \<lparr>personality = personality_v, description = trim d,
                              patterns = generatePatterns pf es trends_v, trends = trends_v\<rparr>, ai2)
                    | AiReturns other \<Rightarrow> (Inl TypeError, ai2)))
            | AiReturns other \<Rightarrow> (Inl TypeError, ai1))))"

definition getInsights :: "Platform \<Rightarrow> UserAgent \<Rightarrow> (error + SpendingPersonality) \<times> UserAgent" where
  "getInsights pf ag =
     (case analyzeSpendingPatterns pf (env_AI ag) (expenses (state ag)) of
        (result, ai1) \<Rightarrow> (result, ag\<lparr>env_AI := ai1\<rparr>))"

definition personality_labels :: "string list" where
  "personality_labels =
     [''Weekend Warrior'', ''Stress Spender'', ''Late Night Buyer'', ''Consistent Budgeter'',
      ''Impulse Shopper'']"



section \<open>Spec-side notions\<close>

text \<open>
  For \<open>getExpenses\<close>. A filter is given when it is present and not the empty string. The
  date of an expense lies within the inclusive range when the start bound, if given, is at
  most the date and the date is at most the end bound, if given; dates are compared as
  strings, code unit by code unit (\<open>lexordp_eq\<close>, the lexicographic order of the library).
\<close>

definition selected :: "Filters option \<Rightarrow> Expense \<Rightarrow> bool" where
  "selected filters e =
     (case filters of
        None \<Rightarrow> True
      | Some f \<Rightarrow>
          (case startDate f of None \<Rightarrow> True | Some d \<Rightarrow> d = [] \<or> lexordp_eq d (date e)) \<and>
          (case endDate f of None \<Rightarrow> True | Some d \<Rightarrow> d = [] \<or> lexordp_eq (date e) d) \<and>
          (case filter_category f of None \<Rightarrow> True | Some c \<Rightarrow> c = [] \<or> category e = c))"

text \<open>
  Calendar dates: a date of the form \<^verbatim>\<open>YYYY-MM-DD\<close> denotes a year, a month and a day, and
  one date is on or before another when its year is smaller, or the years are equal and its
  month is smaller, or years and months are equal and its day is not larger.
\<close>

definition iso_date :: "string \<Rightarrow> (int \<times> int \<times> int) option" where
  "iso_date s =
     (if length s = 10 \<and> list_all (in_class Digit) (take 4 s) \<and> s ! 4 = CHR ''-'' \<and>
         list_all (in_class Digit) (take 2 (drop 5 s)) \<and> s ! 7 = CHR ''-'' \<and>
         list_all (in_class Digit) (drop 8 s)
      then Some (digits_value (take 4 s), digits_value (take 2 (drop 5 s)), digits_value (drop 8 s))
      else None)"

fun calendar_le :: "int \<times> int \<times> int \<Rightarrow> int \<times> int \<times> int \<Rightarrow> bool" where
  "calendar_le (y1, m1, d1) (y2, m2, d2) =
     (y1 < y2 \<or> (y1 = y2 \<and> (m1 < m2 \<or> (m1 = m2 \<and> d1 \<le> d2))))"

definition on_or_before :: "string \<Rightarrow> string \<Rightarrow> bool" where
  "on_or_before a b =
     (case (iso_date a, iso_date b) of (Some x, Some y) \<Rightarrow> calendar_le x y | other \<Rightarrow> False)"

text \<open>The selection by calendar dates, for dates and bounds of the form \<^verbatim>\<open>YYYY-MM-DD\<close>.\<close>

definition selected_by_calendar :: "Filters option \<Rightarrow> Expense \<Rightarrow> bool" where
  "selected_by_calendar filters e =
     (case filters of
        None \<Rightarrow> True
      | Some f \<Rightarrow>
          (case startDate f of None \<Rightarrow> True | Some d \<Rightarrow> d = [] \<or> on_or_before d (date e)) \<and>
          (case endDate f of None \<Rightarrow> True | Some d \<Rightarrow> d = [] \<or> on_or_before (date e) d) \<and>
          (case filter_category f of None \<Rightarrow> True | Some c \<Rightarrow> c = [] \<or> category e = c))"

definition calendar_bound :: "string option \<Rightarrow> bool" where
  "calendar_bound b = (case b of None \<Rightarrow> True | Some d \<Rightarrow> d = [] \<or> iso_date d \<noteq> None)"

definition calendar_dates :: "Filters option \<Rightarrow> Expense list \<Rightarrow> bool" where
  "calendar_dates filters es =
     (list_all (\<lambda>e. iso_date (date e) \<noteq> None) es \<and>
      (case filters of None \<Rightarrow> True | Some f \<Rightarrow> calendar_bound (startDate f) \<and> calendar_bound (endDate f)))"

text \<open>
  For \<open>parseAndAddExpense\<close>: the value the reply stands for, when the reply is a usable
  object or text that parses after stripping code fences.
\<close>

definition reply_value :: "(string \<Rightarrow> js option) \<Rightarrow> ai_outcome \<Rightarrow> js option" where
  "reply_value json_parse outcome =
     (case outcome of
        AiReturns (JObj a m) \<Rightarrow> Some (JObj a m)
      | AiReturns (JStr s) \<Rightarrow> json_parse (strip_fences s)
      | other \<Rightarrow> None)"

text \<open>
  For \<open>getSpendingContext\<close>. The sum of a list of amounts as the program forms it: from 0,
  adding the amounts in list order, each addition rounded to a double. The total of a category
  is that sum over the expenses of the category; the position of its first expense; and the
  sum of the exact values, which the rounded sum can differ from.
\<close>

definition double_sum :: "number list \<Rightarrow> number" where
  "double_sum xs = foldl js_add (Finite 0) xs"

definition category_total :: "Expense list \<Rightarrow> string \<Rightarrow> number" where
  "category_total es c = double_sum (map amount (filter (\<lambda>e. category e = c) es))"

definition first_position :: "Expense list \<Rightarrow> string \<Rightarrow> nat" where
  "first_position es c = length (takeWhile (\<lambda>e. category e \<noteq> c) es)"

definition is_finite :: "number \<Rightarrow> bool" where
  "is_finite x = (case x of Finite q \<Rightarrow> True | other \<Rightarrow> False)"

definition exact_value :: "number \<Rightarrow> rat" where
  "exact_value x = (case x of Finite q \<Rightarrow> q | other \<Rightarrow> 0)"

definition exact_total :: "Expense list \<Rightarrow> string \<Rightarrow> rat" where
  "exact_total es c = sum_list (map (\<lambda>e. exact_value (amount e)) (filter (\<lambda>e. category e = c) es))"

text \<open>
  The order in which \<^verbatim>\<open>Object.entries\<close> lists two category names of a totals object: array
  indices first, by their numeric value, then the other names by the position of their first
  expense.
\<close>

definition enumerated_before :: "Expense list \<Rightarrow> string \<Rightarrow> string \<Rightarrow> bool" where
  "enumerated_before es a b =
     ((is_array_index a \<and> is_array_index b \<and> digits_value a \<le> digits_value b) \<or>
      (is_array_index a \<and> \<not> is_array_index b) \<or>
      (\<not> is_array_index a \<and> \<not> is_array_index b \<and> first_position es a < first_position es b))"

section \<open>Example inputs\<close>

definition env0 :: Env where
  "env0 = \<lparr>date_now = 1710000000000, random_tail = ''k3j9x2m1q'', iso_string = ''2024-03-09T10:15:00.000Z''\<rparr>"

text \<open>A model that answers every call with the same text, and one that answers with an object.\<close>

definition ai_says :: "string \<Rightarrow> Ai" where
  "ai_says reply = \<lparr>behaviour = (\<lambda>n. AiReturns (JStr reply)), call_count = 0\<rparr>"

definition ai_object :: Ai where
  "ai_object = \<lparr>behaviour = (\<lambda>n. AiReturns (JObj None None)), call_count = 0\<rparr>"

definition ai_down :: Ai where
  "ai_down = \<lparr>behaviour = (\<lambda>n. AiRejects ''timeout''), call_count = 0\<rparr>"

definition agent_with :: "Expense list \<Rightarrow> Ai \<Rightarrow> UserAgent" where
  "agent_with es ai =
     (let ag = constructor None ai in ag\<lparr>state := (state ag)\<lparr>userId := ''demo'', expenses := es\<rparr>\<rparr>)"

definition expense_of :: "string \<Rightarrow> number \<Rightarrow> string \<Rightarrow> string \<Rightarrow> string \<Rightarrow> Expense" where
  "expense_of i a m c d = \<lparr>amount = a, merchant = m, category = c, date = d, notes' = None, id' = i\<rparr>"

definition lunch :: Expense where
  "lunch = expense_of ''exp_1_a'' (Finite 5) ''Cafe'' ''Food'' ''2024-03-09''"

definition ticket :: Expense where
  "ticket = expense_of ''exp_2_b'' (Finite 5) ''Metro'' ''Transport'' ''2024-03-11''"

definition locker :: Expense where
  "locker = expense_of ''exp_3_c'' (Finite 5) ''Locker'' ''7'' ''2024-03-11''"

definition five_expenses :: "Expense list" where
  "five_expenses = [lunch, ticket, locker, lunch, ticket]"

text \<open>
  Six expenses with the amounts 0.3, 0.1, 0.2, 0.3, 0.2, 0.1: both categories hold the same three
  amounts, in opposite order.
\<close>

definition small_expenses :: "Expense list" where
  "small_expenses =
     [expense_of ''exp_1_a'' (lit (3 / 10)) ''Metro'' ''Transport'' ''2024-03-09'',
      expense_of ''exp_2_b'' (lit (1 / 10)) ''Cafe'' ''Food'' ''2024-03-09'',
      expense_of ''exp_3_c'' (lit (2 / 10)) ''Cafe'' ''Food'' ''2024-03-10'',
      expense_of ''exp_4_d'' (lit (3 / 10)) ''Cafe'' ''Food'' ''2024-03-10'',
      expense_of ''exp_5_e'' (lit (2 / 10)) ''Metro'' ''Transport'' ''2024-03-11'',
      expense_of ''exp_6_f'' (lit (1 / 10)) ''Metro'' ''Transport'' ''2024-03-11'']"

definition gambling_body :: ExpenseBody where
  "gambling_body =
     \<lparr>body_merchant = ''Casino'', body_amount = Finite 20, body_category = Some ''Gambling'',
      body_notes = None, body_date = ''2024-03-09''\<rparr>"

definition form_body :: ExpenseBody where
  "form_body =
     \<lparr>body_merchant = ''Chipotle'', body_amount = Finite 45, body_category = None,
      body_notes = None, body_date = ''2024-03-09''\<rparr>"

text \<open>
  A platform for the examples: the week days of the two dates used above (9 March 2024 is a
  Saturday, 11 March 2024 a Monday) and the text of whole numbers.
\<close>

definition platform0 :: Platform where
  "platform0 =
     \<lparr>get_day = (\<lambda>d. if d = ''2024-03-09'' then Some 6 else if d = ''2024-03-11'' then Some 1 else None),
      number_to_string = rounded_text\<rparr>"

text \<open>A \<^verbatim>\<open>JSON.parse\<close> that knows two documents.\<close>

definition json_parse0 :: "string \<Rightarrow> js option" where
  "json_parse0 s =
     (if trim s = ''{\"amount\": 9, \"merchant\": \"Starbucks\"}''
      then Some (JObj (Some (Finite 9)) (Some ''Starbucks''))
      else if trim s = ''null'' then Some JNull
      else None)"

text \<open>A reply wrapped in a fenced code block.\<close>

definition fenced_reply :: string where
  "fenced_reply =
     ''```json'' @ [CHR 0x0A] @ ''{\"amount\": 9, \"merchant\": \"Starbucks\"}'' @ [CHR 0x0A] @ ''```''"

section \<open>Conversation history\<close>








section \<open>Listing expenses\<close>

lemma str_le_lexordp_eq: "str_le a b = lexordp_eq a b"
  by (induction a b rule: str_le.induct) (auto simp: less_char_def)

lemma getExpenses_selected:
  "fst (getExpenses filters ag) = filter (selected filters) (expenses (state ag))"
proof (cases filters)
  case None
  then show ?thesis by (simp add: getExpenses_def opt_field_def truthy_str_def selected_def)
next
  case (Some f)
  have sel: "selected (Some f) = (\<lambda>e.
      (truthy_str (startDate f) \<longrightarrow> str_le (the (startDate f)) (date e)) \<and>
      (truthy_str (endDate f) \<longrightarrow> str_le (date e) (the (endDate f))) \<and>
      (truthy_str (filter_category f) \<longrightarrow> category e = the (filter_category f)))"
    by (rule ext) (auto simp: selected_def truthy_str_def str_le_lexordp_eq split: option.splits)
  show ?thesis
    unfolding Some sel
    by (simp add: getExpenses_def opt_field_def Let_def conj_commute)
qed

lemma lexordp_eq_append:
  fixes xs ys :: string
  shows "length xs = length ys \<Longrightarrow>
   lexordp_eq (xs @ us) (ys @ vs) \<longleftrightarrow> (xs \<noteq> ys \<and> lexordp_eq xs ys) \<or> (xs = ys \<and> lexordp_eq us vs)"
  by (induction xs ys rule: list_induct2) (auto simp: lexordp_eq_refl)

lemma digit_code: "in_class Digit c \<Longrightarrow> 48 \<le> (of_char c :: nat) \<and> (of_char c :: nat) \<le> 57"
  by auto

lemma digit_value_range: "in_class Digit c \<Longrightarrow> int (digit_value c) \<le> 9"
  using digit_code [of c] by (simp add: digit_value_def)

lemma digit_less:
  "in_class Digit c \<Longrightarrow> in_class Digit d \<Longrightarrow> c < d \<longleftrightarrow> int (digit_value c) < int (digit_value d)"
  using digit_code [of c] digit_code [of d] by (auto simp: less_char_def digit_value_def)

lemma digit_eq:
  "in_class Digit c \<Longrightarrow> in_class Digit d \<Longrightarrow> c = d \<longleftrightarrow> int (digit_value c) = int (digit_value d)"
  using digit_less [of c d] digit_less [of d c] by auto

lemma foldl_digits:
  "foldl (\<lambda>n c. 10 * n + int (digit_value c)) n cs =
     n * 10 ^ length cs + foldl (\<lambda>n c. 10 * n + int (digit_value c)) 0 cs"
proof (induction cs arbitrary: n)
  case Nil
  then show ?case by simp
next
  case (Cons c cs)
  let ?f = "\<lambda>n c. 10 * n + int (digit_value c)"
  have a: "foldl ?f (10 * n + int (digit_value c)) cs =
      (10 * n + int (digit_value c)) * 10 ^ length cs + foldl ?f 0 cs"
    by (rule Cons.IH)
  have b: "foldl ?f (10 * 0 + int (digit_value c)) cs =
      (10 * 0 + int (digit_value c)) * 10 ^ length cs + foldl ?f 0 cs"
    by (rule Cons.IH)
  show ?case
    by (simp only: foldl_Cons a b) (simp add: algebra_simps)
qed

lemma digits_value_Cons:
  "digits_value (c # cs) = int (digit_value c) * 10 ^ length cs + digits_value cs"
  using foldl_digits [of "int (digit_value c)" cs] by (simp add: digits_value_def)

lemma digits_value_bounds:
  "list_all (in_class Digit) cs \<Longrightarrow> 0 \<le> digits_value cs \<and> digits_value cs < 10 ^ length cs"
proof (induction cs)
  case Nil
  then show ?case by (simp add: digits_value_def)
next
  case (Cons c cs)
  from Cons.prems have dc: "in_class Digit c" and dcs: "list_all (in_class Digit) cs"
    by (simp_all only: list.pred_inject)
  define P :: int where "P = 10 ^ length cs"
  have ih0: "0 \<le> digits_value cs" and ih1: "digits_value cs < P"
    using Cons.IH [OF dcs] by (simp_all add: P_def)
  have p: "0 \<le> int (digit_value c) * P" by (simp add: P_def)
  have "int (digit_value c) \<le> 9" by (rule digit_value_range [OF dc])
  then have q: "int (digit_value c) * P \<le> 9 * P"
    by (intro mult_right_mono) (simp_all add: P_def)
  have e1: "digits_value (c # cs) = int (digit_value c) * P + digits_value cs"
    by (simp add: digits_value_Cons P_def)
  have e2: "(10::int) ^ length (c # cs) = 10 * P" by (simp add: P_def)
  show ?case unfolding e1 e2 using p q ih0 ih1 by linarith
qed

lemma leading_digit_order:
  fixes x y r s n :: int
  assumes "0 \<le> r" "r < n" "0 \<le> s" "s < n"
  shows "x * n + r \<le> y * n + s \<longleftrightarrow> x < y \<or> (x = y \<and> r \<le> s)"
proof (cases "x < y")
  case True
  then have "(x + 1) * n \<le> y * n" using assms by (intro mult_right_mono) auto
  then show ?thesis using True assms by (simp add: algebra_simps)
next
  case False
  show ?thesis
  proof (cases "x = y")
    case True
    then show ?thesis by simp
  next
    case False
    then have "y < x" using \<open>\<not> x < y\<close> by simp
    then have "(y + 1) * n \<le> x * n" using assms by (intro mult_right_mono) auto
    then show ?thesis using \<open>y < x\<close> assms by (simp add: algebra_simps)
  qed
qed

lemma digits_order:
  "length xs = length ys \<Longrightarrow> list_all (in_class Digit) xs \<Longrightarrow> list_all (in_class Digit) ys \<Longrightarrow>
   (lexordp_eq xs ys \<longleftrightarrow> digits_value xs \<le> digits_value ys) \<and>
   (xs = ys \<longleftrightarrow> digits_value xs = digits_value ys)"
proof (induction xs ys rule: list_induct2)
  case Nil
  then show ?case by simp
next
  case (Cons x xs y ys)
  from Cons.prems have dx: "in_class Digit x" and dy: "in_class Digit y"
    and dxs: "list_all (in_class Digit) xs" and dys: "list_all (in_class Digit) ys"
    by (simp_all only: list.pred_inject)
  note ih = Cons.IH [OF dxs dys]
  note bx = digits_value_bounds [OF dxs]
  note by' = digits_value_bounds [OF dys]
  have len: "length ys = length xs" using Cons.hyps by simp
  have le: "digits_value (x # xs) \<le> digits_value (y # ys) \<longleftrightarrow>
      int (digit_value x) < int (digit_value y) \<or>
      (int (digit_value x) = int (digit_value y) \<and> digits_value xs \<le> digits_value ys)"
    unfolding digits_value_Cons len
    using bx by' by (intro leading_digit_order) (simp_all add: len)
  have eq: "digits_value (x # xs) = digits_value (y # ys) \<longleftrightarrow>
      int (digit_value x) = int (digit_value y) \<and> digits_value xs = digits_value ys"
  proof -
    have "digits_value (y # ys) \<le> digits_value (x # xs) \<longleftrightarrow>
      int (digit_value y) < int (digit_value x) \<or>
      (int (digit_value y) = int (digit_value x) \<and> digits_value ys \<le> digits_value xs)"
      unfolding digits_value_Cons len
      using bx by' by (intro leading_digit_order) (simp_all add: len)
    then show ?thesis using le by auto
  qed
  show ?case
    using le eq ih digit_less [OF dx dy] digit_less [OF dy dx] digit_eq [OF dx dy] by auto
qed


lemma iso_split:
  assumes "length s = 10"
  shows "s = take 4 s @ (s ! 4) # take 2 (drop 5 s) @ (s ! 7) # drop 8 s"
proof -
  have a: "drop 4 s = (s ! 4) # drop 5 s"
    using assms Cons_nth_drop_Suc [of 4 s] by simp
  have b: "drop 7 s = (s ! 7) # drop 8 s"
    using assms Cons_nth_drop_Suc [of 7 s] by simp
  have c: "drop 5 s = take 2 (drop 5 s) @ drop 7 s"
    using append_take_drop_id [of 2 "drop 5 s"] by simp
  have "s = take 4 s @ drop 4 s" by simp
  also have "\<dots> = take 4 s @ (s ! 4) # drop 5 s" by (simp only: a)
  also have "\<dots> = take 4 s @ (s ! 4) # take 2 (drop 5 s) @ drop 7 s" using c by simp
  also have "\<dots> = take 4 s @ (s ! 4) # take 2 (drop 5 s) @ (s ! 7) # drop 8 s" by (simp only: b)
  finally show ?thesis .
qed

lemma iso_date_order:
  assumes a: "iso_date a = Some x" and b: "iso_date b = Some y"
  shows "lexordp_eq a b = calendar_le x y"
proof -
  define ya ma da where "ya = take 4 a" and "ma = take 2 (drop 5 a)" and "da = drop 8 a"
  define yb mb db where "yb = take 4 b" and "mb = take 2 (drop 5 b)" and "db = drop 8 b"
  have la: "length a = 10" and a4: "a ! 4 = CHR ''-''" and a7: "a ! 7 = CHR ''-''"
    and dya: "list_all (in_class Digit) ya" and dma: "list_all (in_class Digit) ma"
    and dda: "list_all (in_class Digit) da"
    and x: "x = (digits_value ya, digits_value ma, digits_value da)"
    using a unfolding iso_date_def ya_def ma_def da_def by (simp_all only: split: if_splits) auto
  have lb: "length b = 10" and b4: "b ! 4 = CHR ''-''" and b7: "b ! 7 = CHR ''-''"
    and dyb: "list_all (in_class Digit) yb" and dmb: "list_all (in_class Digit) mb"
    and ddb: "list_all (in_class Digit) db"
    and y: "y = (digits_value yb, digits_value mb, digits_value db)"
    using b unfolding iso_date_def yb_def mb_def db_def by (simp_all only: split: if_splits) auto
  have ea: "a = ya @ CHR ''-'' # ma @ CHR ''-'' # da"
    using iso_split [OF la] unfolding a4 a7 ya_def ma_def da_def .
  have eb: "b = yb @ CHR ''-'' # mb @ CHR ''-'' # db"
    using iso_split [OF lb] unfolding b4 b7 yb_def mb_def db_def .
  have ly: "length ya = length yb" using la lb by (simp add: ya_def yb_def)
  have lm: "length ma = length mb" using la lb by (simp add: ma_def mb_def)
  have ld: "length da = length db" using la lb by (simp add: da_def db_def)
  note oy = digits_order [OF ly dya dyb]
  note om = digits_order [OF lm dma dmb]
  note od = digits_order [OF ld dda ddb]
  have "lexordp_eq a b \<longleftrightarrow>
      (ya \<noteq> yb \<and> lexordp_eq ya yb) \<or>
      (ya = yb \<and> ((ma \<noteq> mb \<and> lexordp_eq ma mb) \<or> (ma = mb \<and> lexordp_eq da db)))"
    by (subst ea, subst eb) (simp add: lexordp_eq_append [OF ly] lexordp_eq_append [OF lm])
  also have "\<dots> \<longleftrightarrow> calendar_le x y"
    unfolding x y using oy om od by auto
  finally show ?thesis .
qed

lemma on_or_before_lexordp_eq:
  "iso_date a \<noteq> None \<Longrightarrow> iso_date b \<noteq> None \<Longrightarrow> on_or_before a b = lexordp_eq a b"
  by (auto simp: on_or_before_def iso_date_order)

lemma selected_by_calendar_selected:
  assumes "calendar_dates filters es" and "e \<in> set es"
  shows "selected_by_calendar filters e = selected filters e"
proof (cases filters)
  case None
  then show ?thesis by (simp add: selected_by_calendar_def selected_def)
next
  case (Some f)
  have e: "iso_date (date e) \<noteq> None"
    using assms by (simp add: calendar_dates_def list_all_iff)
  have s: "calendar_bound (startDate f)" and t: "calendar_bound (endDate f)"
    using assms(1) by (simp_all add: calendar_dates_def Some)
  have s': "(case startDate f of None \<Rightarrow> True | Some d \<Rightarrow> d = [] \<or> on_or_before d (date e)) =
            (case startDate f of None \<Rightarrow> True | Some d \<Rightarrow> d = [] \<or> lexordp_eq d (date e))"
    using s e by (auto simp: calendar_bound_def on_or_before_lexordp_eq split: option.splits)
  have t': "(case endDate f of None \<Rightarrow> True | Some d \<Rightarrow> d = [] \<or> on_or_before (date e) d) =
            (case endDate f of None \<Rightarrow> True | Some d \<Rightarrow> d = [] \<or> lexordp_eq (date e) d)"
    using t e by (auto simp: calendar_bound_def on_or_before_lexordp_eq split: option.splits)
  show ?thesis
    by (simp only: selected_by_calendar_def selected_def Some option.case s' t')
qed

lemma getExpenses_calendar:
  "calendar_dates filters (expenses (state ag)) \<Longrightarrow>
   fst (getExpenses filters ag) = filter (selected_by_calendar filters) (expenses (state ag))"
  unfolding getExpenses_selected
  by (rule filter_cong [OF refl]) (simp add: selected_by_calendar_selected)

text \<open>
  The claim C9 as stated fails: a category filter that is the empty string matches no stored
  expense (every stored category here is non-empty), yet the whole list is returned, because
  the program applies a filter only when it is truthy.
\<close>

theorem C9_counterexample:
  "list_all (\<lambda>e. category e \<noteq> [])
     (expenses (state (agent_with [lunch, ticket, locker] (ai_says ''Food'')))) \<and>
   fst (getExpenses (Some \<lparr>startDate = None, endDate = None, filter_category = Some []\<rparr>)
        (agent_with [lunch, ticket, locker] (ai_says ''Food''))) = [lunch, ticket, locker] \<and>
   fst (getExpenses (Some \<lparr>startDate = None, endDate = None, filter_category = Some []\<rparr>)
        (agent_with [lunch, ticket, locker] (ai_says ''Food''))) \<noteq> []"
  by (simp add: getExpenses_def opt_field_def truthy_str_def agent_with_def constructor_def
      lunch_def ticket_def locker_def expense_of_def)

text \<open>
  Claim C9, amended. \<open>getExpenses\<close> returns exactly the stored expenses that the filters
  select, in insertion order, and leaves the agent as it is; a filter counts only when it is
  present and not the empty string. The date filters compare strings code unit by code unit,
  both bounds inclusive; when the stored dates and the bounds have the form \<^verbatim>\<open>YYYY-MM-DD\<close>
  this is the order of the calendar. Without filters the full list is returned, so right after
  \<open>addExpense\<close> the last element of the unfiltered listing is the expense just added, id
  included. A non-empty category filter that matches no stored expense gives the empty list,
  an empty one is ignored; the function has no error result.
\<close>

theorem C9_amended:
  "fst (getExpenses filters ag) = filter (selected filters) (expenses (state ag)) \<and>
   (calendar_dates filters (expenses (state ag)) \<longrightarrow>
      fst (getExpenses filters ag) = filter (selected_by_calendar filters) (expenses (state ag))) \<and>
   snd (getExpenses filters ag) = ag \<and>
   fst (getExpenses None ag) = expenses (state ag) \<and>
   last (fst (getExpenses None (snd (addExpense env x ag)))) = fst (addExpense env x ag) \<and>
   (c \<noteq> [] \<and> (\<forall>e \<in> set (expenses (state ag)). category e \<noteq> c) \<longrightarrow>
      fst (getExpenses (Some \<lparr>startDate = sd, endDate = ed, filter_category = Some c\<rparr>) ag) = []) \<and>
   fst (getExpenses (Some \<lparr>startDate = sd, endDate = ed, filter_category = Some []\<rparr>) ag) =
     fst (getExpenses (Some \<lparr>startDate = sd, endDate = ed, filter_category = None\<rparr>) ag)"
proof -
  have a: "fst (getExpenses None ag) = expenses (state ag)"
    by (simp add: getExpenses_selected selected_def)
  have b: "last (fst (getExpenses None (snd (addExpense env x ag)))) = fst (addExpense env x ag)"
    by (simp add: getExpenses_selected selected_def addExpense_def Let_def saveState_def)
  have c: "c \<noteq> [] \<and> (\<forall>e \<in> set (expenses (state ag)). category e \<noteq> c) \<longrightarrow>
      fst (getExpenses (Some \<lparr>startDate = sd, endDate = ed, filter_category = Some c\<rparr>) ag) = []"
    by (auto simp: getExpenses_selected selected_def filter_empty_conv)
  have d: "snd (getExpenses filters ag) = ag"
    by (simp add: getExpenses_def Let_def)
  have e: "fst (getExpenses (Some \<lparr>startDate = sd, endDate = ed, filter_category = Some []\<rparr>) ag) =
     fst (getExpenses (Some \<lparr>startDate = sd, endDate = ed, filter_category = None\<rparr>) ag)"
    unfolding getExpenses_selected
    by (rule filter_cong [OF refl]) (simp add: selected_def)
  have f: "calendar_dates filters (expenses (state ag)) \<longrightarrow>
      fst (getExpenses filters ag) = filter (selected_by_calendar filters) (expenses (state ag))"
    by (simp add: getExpenses_calendar)
  show ?thesis
    by (intro conjI getExpenses_selected a b c d e f)
qed

lemma example_dates:
  "iso_date ''2024-03-09'' = Some (2024, 3, 9)"
  "iso_date ''2024-03-10'' = Some (2024, 3, 10)"
  "iso_date ''2024-03-11'' = Some (2024, 3, 11)"
  by (simp_all add: iso_date_def digits_value_def digit_value_def)

theorem C9_witness:
  "calendar_dates (Some \<lparr>startDate = Some ''2024-03-09'', endDate = Some ''2024-03-10'',
                         filter_category = None\<rparr>)
     (expenses (state (agent_with [lunch, ticket, locker] (ai_says ''Food'')))) \<and>
   fst (getExpenses (Some \<lparr>startDate = Some ''2024-03-09'', endDate = Some ''2024-03-10'',
                           filter_category = None\<rparr>)
        (agent_with [lunch, ticket, locker] (ai_says ''Food''))) = [lunch] \<and>
   calendar_dates (Some \<lparr>startDate = Some ''2024-03-10'', endDate = Some ''2024-03-11'',
                         filter_category = Some ''Transport''\<rparr>)
     (expenses (state (agent_with [lunch, ticket, locker] (ai_says ''Food'')))) \<and>
   fst (getExpenses (Some \<lparr>startDate = Some ''2024-03-10'', endDate = Some ''2024-03-11'',
                           filter_category = Some ''Transport''\<rparr>)
        (agent_with [lunch, ticket, locker] (ai_says ''Food''))) = [ticket] \<and>
   fst (getExpenses (Some \<lparr>startDate = None, endDate = None, filter_category = Some ''Transport''\<rparr>)
        (agent_with [lunch, ticket, locker] (ai_says ''Food''))) = [ticket] \<and>
   fst (getExpenses (Some \<lparr>startDate = Some ''2024-03-10'', endDate = Some ''2024-03-11'',
                           filter_category = None\<rparr>)
        (agent_with [lunch, ticket, locker] (ai_says ''Food''))) = [ticket, locker] \<and>
   ''Bills'' \<noteq> [] \<and>
   list_all (\<lambda>e. category e \<noteq> ''Bills'')
     (expenses (state (agent_with [lunch, ticket, locker] (ai_says ''Food'')))) \<and>
   fst (getExpenses (Some \<lparr>startDate = None, endDate = None, filter_category = Some ''Bills''\<rparr>)
        (agent_with [lunch, ticket, locker] (ai_says ''Food''))) = []"
proof -
  let ?ag = "agent_with [lunch, ticket, locker] (ai_says ''Food'')"
  let ?x = "\<lparr>amount = Finite 9, merchant = ''Starbucks'', category = ''Food'',
             date = ''2024-03-09'', notes' = None\<rparr>"
  have es: "expenses (state ?ag) = [lunch, ticket, locker]"
    by (simp add: agent_with_def constructor_def)
  have dates: "date lunch = ''2024-03-09''" "date ticket = ''2024-03-11''" "date locker = ''2024-03-11''"
    "category lunch = ''Food''" "category ticket = ''Transport''" "category locker = ''7''"
    by (simp_all add: lunch_def ticket_def locker_def expense_of_def)
  have cal: "calendar_dates (Some \<lparr>startDate = Some sd, endDate = Some ed, filter_category = fc\<rparr>)
      (expenses (state ?ag))"
    if "iso_date sd \<noteq> None" "iso_date ed \<noteq> None" for sd ed fc
    using that by (simp add: es calendar_dates_def calendar_bound_def dates example_dates)
  have c1: "calendar_dates (Some \<lparr>startDate = Some ''2024-03-09'', endDate = Some ''2024-03-10'',
                         filter_category = None\<rparr>) (expenses (state ?ag))"
    by (rule cal) (simp_all add: example_dates)
  have c2: "calendar_dates (Some \<lparr>startDate = Some ''2024-03-10'', endDate = Some ''2024-03-11'',
                         filter_category = Some ''Transport''\<rparr>) (expenses (state ?ag))"
    by (rule cal) (simp_all add: example_dates)
  have c3: "calendar_dates (Some \<lparr>startDate = Some ''2024-03-10'', endDate = Some ''2024-03-11'',
                         filter_category = None\<rparr>) (expenses (state ?ag))"
    by (rule cal) (simp_all add: example_dates)
  have w1: "fst (getExpenses (Some \<lparr>startDate = Some ''2024-03-09'', endDate = Some ''2024-03-10'',
                           filter_category = None\<rparr>) ?ag) = [lunch]"
    using C9_amended [of "Some \<lparr>startDate = Some ''2024-03-09'', endDate = Some ''2024-03-10'',
                                 filter_category = None\<rparr>" ?ag env0 ?x "''Bills''" None None,
                      THEN conjunct2, THEN conjunct1, rule_format, OF c1]
    by (simp add: es selected_by_calendar_def on_or_before_def dates example_dates)
  have w2: "fst (getExpenses (Some \<lparr>startDate = Some ''2024-03-10'', endDate = Some ''2024-03-11'',
                           filter_category = Some ''Transport''\<rparr>) ?ag) = [ticket]"
    using C9_amended [of "Some \<lparr>startDate = Some ''2024-03-10'', endDate = Some ''2024-03-11'',
                                 filter_category = Some ''Transport''\<rparr>" ?ag env0 ?x "''Bills''" None None,
                      THEN conjunct2, THEN conjunct1, rule_format, OF c2]
    by (simp add: es selected_by_calendar_def on_or_before_def dates example_dates)
  have w3: "fst (getExpenses (Some \<lparr>startDate = Some ''2024-03-10'', endDate = Some ''2024-03-11'',
                           filter_category = None\<rparr>) ?ag) = [ticket, locker]"
    using C9_amended [of "Some \<lparr>startDate = Some ''2024-03-10'', endDate = Some ''2024-03-11'',
                                 filter_category = None\<rparr>" ?ag env0 ?x "''Bills''" None None,
                      THEN conjunct2, THEN conjunct1, rule_format, OF c3]
    by (simp add: es selected_by_calendar_def on_or_before_def dates example_dates)
  have w4: "fst (getExpenses (Some \<lparr>startDate = None, endDate = None, filter_category = Some ''Transport''\<rparr>) ?ag) = [ticket]"
    using C9_amended [of "Some \<lparr>startDate = None, endDate = None,
                                 filter_category = Some ''Transport''\<rparr>" ?ag env0 ?x "''Bills''" None None, THEN conjunct1]
    by (simp add: es selected_def dates)
  have h: "list_all (\<lambda>e. category e \<noteq> ''Bills'') (expenses (state ?ag))"
    by (simp add: es dates)
  have w5: "fst (getExpenses (Some \<lparr>startDate = None, endDate = None, filter_category = Some ''Bills''\<rparr>) ?ag) = []"
    using C9_amended [of None ?ag env0 ?x "''Bills''" None None] h
    by (simp only: list_all_iff) simp
  have nb: "''Bills'' \<noteq> []" by simp
  show ?thesis
    by (intro conjI c1 w1 c2 w2 w4 w3 nb h w5)
qed

section \<open>Spending context\<close>

lemma foldl_amount_sum:
  "foldl (\<lambda>sum e. js_add sum (amount e)) a es = foldl js_add a (map amount es)"
  by (induction es arbitrary: a) simp_all

text \<open>
  Claim C10. With no stored expense, \<open>getSpendingContext\<close> returns top category
  \<open>''Unknown''\<close>, top amount 0, total 0, count 0 and no recent expenses.
\<close>

theorem C10_empty_context:
  "expenses (state ag) = [] \<Longrightarrow>
   fst (getSpendingContext ag) =
     \<lparr>totalSpent = Finite 0, topCategory = ''Unknown'', topAmount = Finite 0, recentExpenses = [],
      expenseCount = 0\<rparr>"
  by (simp add: getSpendingContext_def category_totals_def top_entry_def object_entries_def
      stable_sort_def slice_last_def)

theorem C10_witness:
  "expenses (state (agent_with [] (ai_says ''Food''))) = [] \<and>
   fst (getSpendingContext (agent_with [] (ai_says ''Food''))) =
     \<lparr>totalSpent = Finite 0, topCategory = ''Unknown'', topAmount = Finite 0, recentExpenses = [],
      expenseCount = 0\<rparr>"
proof -
  have h: "expenses (state (agent_with [] (ai_says ''Food''))) = []"
    by (simp add: agent_with_def constructor_def)
  show ?thesis using h C10_empty_context [OF h] by simp
qed

section \<open>Categorizer\<close>

lemma categorizeExpense_text:
  "behaviour ai (call_count ai) = AiReturns (JStr s) \<Longrightarrow>
   fst (categorizeExpense ai m a) =
     (if trim s \<in> set validCategories then (trim s, lit (95 / 100)) else (''Other'', lit (5 / 10)))"
  by (simp add: categorizeExpense_def run_def Let_def)

lemma categorizeExpense_no_text:
  "(\<And>s. behaviour ai (call_count ai) \<noteq> AiReturns (JStr s)) \<Longrightarrow>
   fst (categorizeExpense ai m a) = (''Other'', lit (3 / 10))"
  by (auto simp: categorizeExpense_def run_def split: ai_outcome.splits js.splits)

lemma categorizeExpense_valid: "fst (fst (categorizeExpense ai m a)) \<in> set validCategories"
  by (auto simp: categorizeExpense_def run_def Let_def validCategories_def split: ai_outcome.splits js.splits)

lemma confidences: "lit (3 / 10) \<noteq> lit (5 / 10)"
  by code_simp

text \<open>
  The claim C6 as stated fails: a call that succeeds and returns an object, no text, is none of
  the five names, yet the result is \<open>''Other''\<close> with confidence 0.3, not 0.5, because trimming
  the reply raises inside the \<^verbatim>\<open>try\<close> block.
\<close>

theorem C6_counterexample:
  "behaviour ai_object (call_count ai_object) = AiReturns (JObj None None) \<and>
   fst (categorizeExpense ai_object ''Chipotle'' (Finite 45)) = (''Other'', lit (3 / 10)) \<and>
   fst (categorizeExpense ai_object ''Chipotle'' (Finite 45)) \<noteq> (''Other'', lit (5 / 10))"
proof -
  have a: "behaviour ai_object (call_count ai_object) = AiReturns (JObj None None)"
    by (simp add: ai_object_def)
  have b: "fst (categorizeExpense ai_object ''Chipotle'' (Finite 45)) = (''Other'', lit (3 / 10))"
    by (rule categorizeExpense_no_text) (simp add: ai_object_def)
  have c: "fst (categorizeExpense ai_object ''Chipotle'' (Finite 45)) \<noteq> (''Other'', lit (5 / 10))"
    using confidences by (simp add: b)
  show ?thesis by (intro conjI a b c)
qed

text \<open>
  Claim C6, amended. For every merchant, amount and model behaviour \<open>categorizeExpense\<close> returns
  one of three results: the trimmed reply with confidence 0.95 when the call returns text whose
  trimmed form is one of the five category names; \<open>''Other''\<close> with confidence 0.5 when the call
  returns text whose trimmed form is not one of them; \<open>''Other''\<close> with confidence 0.3 when the
  call is rejected or returns a reply that is not text. The function has no error result, and
  its category is always one of the five.
\<close>

theorem C6_amended:
  "(\<forall>s. behaviour ai (call_count ai) = AiReturns (JStr s) \<and> trim s \<in> set validCategories \<longrightarrow>
      fst (categorizeExpense ai m a) = (trim s, lit (95 / 100))) \<and>
   (\<forall>s. behaviour ai (call_count ai) = AiReturns (JStr s) \<and> trim s \<notin> set validCategories \<longrightarrow>
      fst (categorizeExpense ai m a) = (''Other'', lit (5 / 10))) \<and>
   ((\<forall>s. behaviour ai (call_count ai) \<noteq> AiReturns (JStr s)) \<longrightarrow>
      fst (categorizeExpense ai m a) = (''Other'', lit (3 / 10))) \<and>
   fst (fst (categorizeExpense ai m a)) \<in> set validCategories"
  using categorizeExpense_text [of ai _ m a] categorizeExpense_no_text [of ai m a]
    categorizeExpense_valid [of ai m a]
  by auto

theorem C6_witness:
  "fst (categorizeExpense (ai_says '' Food  '') ''Chipotle'' (Finite 45)) = (''Food'', lit (95 / 100)) \<and>
   fst (categorizeExpense (ai_says ''Dining'') ''Chipotle'' (Finite 45)) = (''Other'', lit (5 / 10)) \<and>
   fst (categorizeExpense ai_down ''Chipotle'' (Finite 45)) = (''Other'', lit (3 / 10)) \<and>
   fst (categorizeExpense ai_object ''Chipotle'' (Finite 45)) = (''Other'', lit (3 / 10))"
  using C6_amended [of "ai_says '' Food  ''" "''Chipotle''" "Finite 45"]
    C6_amended [of "ai_says ''Dining''" "''Chipotle''" "Finite 45"]
    C6_amended [of ai_down "''Chipotle''" "Finite 45"]
    C6_amended [of ai_object "''Chipotle''" "Finite 45"]
  by (simp add: ai_says_def ai_down_def ai_object_def trim_def is_space_def validCategories_def)

section \<open>Insights\<close>

text \<open>
  Claim C7. For every expense list with fewer than 5 elements, whatever they hold,
  \<open>analyzeSpendingPatterns\<close> returns the fixed report (personality \<open>''Getting Started''\<close>, no
  patterns, weekend and weekday totals 0, empty category distribution) and makes no call of
  the hosted model: the binding is returned as it was, with the same call count.
\<close>

theorem C7_getting_started:
  "length es < 5 \<Longrightarrow>
   analyzeSpendingPatterns pf ai es =
     (Inr \<lparr>personality = ''Getting Started'',
           description = ''Add more expenses to see your spending personality!'',
           patterns = [],
           trends = \<lparr>weekendVsWeekday = \<lparr>weekend = Finite 0, weekday = Finite 0\<rparr>,
                     categoryDistribution = []\<rparr>\<rparr>, ai) \<and>
   call_count (snd (analyzeSpendingPatterns pf ai es)) = call_count ai"
  by (simp add: analyzeSpendingPatterns_def getting_started_def)

theorem C7_witness:
  "length [lunch, ticket, locker, lunch] < 5 \<and>
   analyzeSpendingPatterns platform0 (ai_says ''Weekend Warrior'') [lunch, ticket, locker, lunch] =
     (Inr \<lparr>personality = ''Getting Started'',
           description = ''Add more expenses to see your spending personality!'',
           patterns = [],
           trends = \<lparr>weekendVsWeekday = \<lparr>weekend = Finite 0, weekday = Finite 0\<rparr>,
                     categoryDistribution = []\<rparr>\<rparr>,
      ai_says ''Weekend Warrior'') \<and>
   call_count (snd (analyzeSpendingPatterns platform0 (ai_says ''Weekend Warrior'') [lunch, ticket, locker, lunch])) =
     call_count (ai_says ''Weekend Warrior'')"
proof -
  have h: "length [lunch, ticket, locker, lunch] < 5" by simp
  show ?thesis using h C7_getting_started [OF h] by blast
qed

lemma analyze_text:
  "5 \<le> length es \<Longrightarrow> behaviour ai (call_count ai) = AiReturns (JStr s) \<Longrightarrow>
   behaviour ai (Suc (call_count ai)) = AiReturns (JStr d) \<Longrightarrow>
   fst (analyzeSpendingPatterns pf ai es) =
     Inr \<lparr>personality = trim s, description = trim d,
          patterns = generatePatterns pf es (calculateTrends pf es), trends = calculateTrends pf es\<rparr>"
  by (simp add: analyzeSpendingPatterns_def run_def Let_def)

lemma analyze_first_fails:
  "5 \<le> length es \<Longrightarrow> (\<And>s. behaviour ai (call_count ai) \<noteq> AiReturns (JStr s)) \<Longrightarrow>
   isl (fst (analyzeSpendingPatterns pf ai es))"
  by (auto simp: analyzeSpendingPatterns_def run_def Let_def split: ai_outcome.splits js.splits)

lemma analyze_second_fails:
  "5 \<le> length es \<Longrightarrow> (\<And>d. behaviour ai (Suc (call_count ai)) \<noteq> AiReturns (JStr d)) \<Longrightarrow>
   isl (fst (analyzeSpendingPatterns pf ai es))"
  by (auto simp: analyzeSpendingPatterns_def run_def Let_def split: ai_outcome.splits js.splits)

text \<open>
  The claim C8 as stated fails: with five stored expenses and a model that answers
  \<open>''Frugal Fox''\<close>, the report's personality is \<open>''Frugal Fox''\<close>, none of the five labels.
\<close>

theorem C8_counterexample:
  "length five_expenses = 5 \<and>
   \<not> isl (fst (analyzeSpendingPatterns platform0 (ai_says ''Frugal Fox'') five_expenses)) \<and>
   personality (projr (fst (analyzeSpendingPatterns platform0 (ai_says ''Frugal Fox'') five_expenses))) = ''Frugal Fox'' \<and>
   ''Frugal Fox'' \<notin> set personality_labels"
proof -
  have t: "trim ''Frugal Fox'' = ''Frugal Fox''" by (simp add: trim_def is_space_def)
  have "fst (analyzeSpendingPatterns platform0 (ai_says ''Frugal Fox'') five_expenses) =
     Inr \<lparr>personality = trim ''Frugal Fox'', description = trim ''Frugal Fox'',
          patterns = generatePatterns platform0 five_expenses (calculateTrends platform0 five_expenses),
          trends = calculateTrends platform0 five_expenses\<rparr>"
    by (rule analyze_text) (simp_all add: five_expenses_def ai_says_def)
  then show ?thesis by (simp add: t five_expenses_def personality_labels_def)
qed

text \<open>
  Claim C8, amended. For every expense list with at least 5 elements: when both model calls
  return text, \<open>analyzeSpendingPatterns\<close> returns a report whose personality is the trimmed
  text of the first reply, unchecked, so it is one of the five labels exactly when the model's
  trimmed reply is; when a call is rejected or its reply is no text, the function raises and
  returns no report. \<open>getInsights\<close> returns what \<open>analyzeSpendingPatterns\<close> returns for the
  stored expenses.
\<close>

theorem C8_amended:
  "5 \<le> length es \<Longrightarrow>
   (\<forall>s d. behaviour ai (call_count ai) = AiReturns (JStr s) \<and>
          behaviour ai (Suc (call_count ai)) = AiReturns (JStr d) \<longrightarrow>
      (\<exists>r. fst (analyzeSpendingPatterns pf ai es) = Inr r \<and> personality r = trim s \<and>
           (personality r \<in> set personality_labels \<longleftrightarrow> trim s \<in> set personality_labels))) \<and>
   ((\<forall>s. behaviour ai (call_count ai) \<noteq> AiReturns (JStr s)) \<or>
    (\<forall>d. behaviour ai (Suc (call_count ai)) \<noteq> AiReturns (JStr d)) \<longrightarrow>
      isl (fst (analyzeSpendingPatterns pf ai es))) \<and>
   fst (getInsights pf (ag\<lparr>state := (state ag)\<lparr>expenses := es\<rparr>, env_AI := ai\<rparr>)) =
     fst (analyzeSpendingPatterns pf ai es)"
proof -
  assume len: "5 \<le> length es"
  have g: "fst (getInsights pf (ag\<lparr>state := (state ag)\<lparr>expenses := es\<rparr>, env_AI := ai\<rparr>)) =
     fst (analyzeSpendingPatterns pf ai es)"
    by (simp add: getInsights_def case_prod_beta)
  show ?thesis
    using analyze_text [OF len, of ai _ _ pf] analyze_first_fails [OF len, of ai pf]
      analyze_second_fails [OF len, of ai pf] g
    by auto
qed

theorem C8_witness:
  "5 \<le> length five_expenses \<and>
   personality (projr (fst (analyzeSpendingPatterns platform0 (ai_says '' Weekend Warrior '') five_expenses))) =
     ''Weekend Warrior'' \<and>
   personality (projr (fst (analyzeSpendingPatterns platform0 (ai_says ''Frugal Fox'') five_expenses))) \<notin> set personality_labels \<and>
   isl (fst (analyzeSpendingPatterns platform0 ai_down five_expenses))"
proof -
  have len: "5 \<le> length five_expenses" by (simp add: five_expenses_def)
  have t1: "trim '' Weekend Warrior '' = ''Weekend Warrior''" by (simp add: trim_def is_space_def)
  have t2: "trim ''Frugal Fox'' = ''Frugal Fox''" by (simp add: trim_def is_space_def)
  have w1: "personality (projr (fst (analyzeSpendingPatterns platform0 (ai_says '' Weekend Warrior '') five_expenses))) =
     ''Weekend Warrior''"
    using C8_amended [OF len, of "ai_says '' Weekend Warrior ''" platform0 "agent_with [] (ai_says ''Food'')"]
    by (auto simp: ai_says_def t1)
  have w2: "personality (projr (fst (analyzeSpendingPatterns platform0 (ai_says ''Frugal Fox'') five_expenses))) \<notin> set personality_labels"
    using C8_amended [OF len, of "ai_says ''Frugal Fox''" platform0 "agent_with [] (ai_says ''Food'')"]
    by (auto simp: ai_says_def t2 personality_labels_def)
  have w3: "isl (fst (analyzeSpendingPatterns platform0 ai_down five_expenses))"
    using C8_amended [OF len, of "ai_down" platform0 "agent_with [] (ai_says ''Food'')"]
    by (simp add: ai_down_def)
  show ?thesis using len w1 w2 w3 by blast
qed


section \<open>The direct add route\<close>

lemma addExpense_state:
  "expenses (state (snd (addExpense env x ag))) = expenses (state ag) @ [fst (addExpense env x ag)] \<and>
   storage (snd (addExpense env x ag)) = Some (state (snd (addExpense env x ag)))"
  by (simp add: addExpense_def Let_def saveState_def)

lemma addExpense_fields:
  "amount (fst (addExpense env x ag)) = amount x \<and> merchant (fst (addExpense env x ag)) = merchant x \<and>
   category (fst (addExpense env x ag)) = category x \<and> date (fst (addExpense env x ag)) = date x \<and>
   notes' (fst (addExpense env x ag)) = notes' x"
  by (simp add: addExpense_def Let_def)

lemma addExpense_other:
  "env_AI (snd (addExpense env x ag)) = env_AI ag \<and>
   conversations (state (snd (addExpense env x ag))) = conversations (state ag)"
  by (simp add: addExpense_def Let_def saveState_def)

lemma fetch_POST_expenses_stored:
  "\<exists>e. body (fst (fetch_POST_expenses param env b ag)) = ExpenseResult True e \<and>
       status (fst (fetch_POST_expenses param env b ag)) = 200 \<and>
       expenses (state (snd (fetch_POST_expenses param env b ag))) =
         expenses (state (initialize (userId_of param) ag)) @ [e] \<and>
       storage (snd (fetch_POST_expenses param env b ag)) = Some (state (snd (fetch_POST_expenses param env b ag))) \<and>
       category e =
         (if truthy_str (body_category b) then the (body_category b)
          else fst (fst (categorizeExpense (env_AI (initialize (userId_of param) ag)) (body_merchant b) (body_amount b))))"
proof (cases "truthy_str (body_category b)")
  case True
  then show ?thesis
    by (simp add: fetch_POST_expenses_def Let_def case_prod_beta addExpense_state addExpense_fields)
next
  case False
  then show ?thesis
    by (simp add: fetch_POST_expenses_def Let_def case_prod_beta addExpense_state addExpense_fields)
qed

text \<open>
  The claim C1 as stated fails: a request body that carries the category \<open>''Gambling''\<close> is
  persisted with that category, which is none of the five names.
\<close>

theorem C1_counterexample:
  "category (last (expenses (the (storage (snd (fetch_POST_expenses None env0 gambling_body (agent_with [] (ai_says ''Food''))))))))
     = ''Gambling'' \<and>
   ''Gambling'' \<notin> set validCategories"
  by (simp add: fetch_POST_expenses_def Let_def addExpense_def saveState_def gambling_body_def truthy_str_def
      initialize_def agent_with_def constructor_def validCategories_def userId_of_def)

text \<open>
  Claim C1, amended. \<^verbatim>\<open>POST /expenses\<close> persists exactly one new expense. When the request
  body carries no category (it is missing or the empty string), the stored category is one of
  the five fixed names; when the body carries a category, that category is stored as it is.
\<close>

theorem C1_amended:
  "\<exists>e. body (fst (fetch_POST_expenses param env b ag)) = ExpenseResult True e \<and>
       expenses (state (snd (fetch_POST_expenses param env b ag))) =
         expenses (state (initialize (userId_of param) ag)) @ [e] \<and>
       storage (snd (fetch_POST_expenses param env b ag)) = Some (state (snd (fetch_POST_expenses param env b ag))) \<and>
       (\<not> truthy_str (body_category b) \<longrightarrow> category e \<in> set validCategories) \<and>
       (truthy_str (body_category b) \<longrightarrow> category e = the (body_category b))"
  using fetch_POST_expenses_stored [of param env b ag] categorizeExpense_valid
  by auto

theorem C1_witness:
  "\<not> truthy_str (body_category form_body) \<and>
   category (last (expenses (the (storage (snd (fetch_POST_expenses None env0 form_body (agent_with [] (ai_says ''Food''))))))))
     \<in> set validCategories \<and>
   truthy_str (body_category gambling_body) \<and>
   category (last (expenses (the (storage (snd (fetch_POST_expenses None env0 gambling_body (agent_with [] (ai_says ''Food''))))))))
     = ''Gambling''"
  using C1_amended [of None env0 form_body "agent_with [] (ai_says ''Food'')"]
        C1_amended [of None env0 gambling_body "agent_with [] (ai_says ''Food'')"]
  by (auto simp: form_body_def gambling_body_def truthy_str_def)


section \<open>Free-text expenses\<close>

lemma falsy_no_fields: "\<not> truthy v \<Longrightarrow> prop_amount v = None"
  by (cases v) simp_all

lemma normalise_reply_value:
  "normalise_reply jp r = (case reply_value jp (AiReturns r) of None \<Rightarrow> Inl CouldNotParse | Some v \<Rightarrow> Inr v)"
  by (cases r) (simp_all add: normalise_reply_def reply_value_def split: option.splits)

lemma parseAndAddExpense_raises:
  "isl (fst (parseAndAddExpense jp env t ag)) \<longleftrightarrow>
     (case reply_value jp (behaviour (env_AI ag) (call_count (env_AI ag))) of
        None \<Rightarrow> True
      | Some parsed \<Rightarrow> \<not> truthy_num (prop_amount parsed) \<or> \<not> truthy_str (prop_merchant parsed))"
proof (cases "behaviour (env_AI ag) (call_count (env_AI ag))")
  case (AiRejects msg)
  then show ?thesis
    by (simp add: parseAndAddExpense_def run_def Let_def reply_value_def)
next
  case (AiReturns r)
  show ?thesis
  proof (cases "reply_value jp (AiReturns r)")
    case None
    then show ?thesis
      using AiReturns by (simp add: parseAndAddExpense_def run_def Let_def normalise_reply_value)
  next
    case (Some parsed)
    then show ?thesis
      using AiReturns falsy_no_fields [of parsed]
      by (auto simp: parseAndAddExpense_def run_def Let_def normalise_reply_value case_prod_beta
          truthy_num_def)
  qed
qed

lemma parseAndAddExpense_unchanged:
  "isl (fst (parseAndAddExpense jp env t ag)) \<Longrightarrow>
   state (snd (parseAndAddExpense jp env t ag)) = state ag \<and>
   storage (snd (parseAndAddExpense jp env t ag)) = storage ag"
  by (auto simp: parseAndAddExpense_def run_def Let_def case_prod_beta
      split: ai_outcome.splits sum.splits if_splits)

lemma parseAndAddExpense_added:
  "\<not> isl (fst (parseAndAddExpense jp env t ag)) \<Longrightarrow>
   expenses (state (snd (parseAndAddExpense jp env t ag))) =
     expenses (state ag) @ [projr (fst (parseAndAddExpense jp env t ag))]"
  by (auto simp: parseAndAddExpense_def run_def Let_def case_prod_beta addExpense_state
      split: ai_outcome.splits sum.splits if_splits)

lemma fetch_parse_response:
  "fst (fetch_POST_expenses_parse jp param env t ag) =
     (case fst (parseAndAddExpense jp env t (initialize (userId_of param) ag)) of
        Inl e \<Rightarrow> \<lparr>status = 400, body = ErrorResult False (error_message e)\<rparr>
      | Inr x \<Rightarrow> \<lparr>status = 200, body = ExpenseResult True x\<rparr>)"
  by (simp add: fetch_POST_expenses_parse_def split: prod.splits sum.splits)

text \<open>
  Claim C5. \<open>parseAndAddExpense\<close> raises exactly when the model reply is neither a usable
  object nor text that parses after stripping code fences (a rejected call gives no reply at
  all), or the amount or the merchant of the parsed value is missing or falsy. When it raises,
  the state and the storage are as before, so no expense is added; when it does not, exactly
  the returned expense is appended. The route answers a raise with status 400 and
  \<^verbatim>\<open>success: false\<close> with the error's message, and answers 200 otherwise.
\<close>

theorem C5_parse_errors:
  "(isl (fst (parseAndAddExpense jp env t ag)) \<longleftrightarrow>
      (case reply_value jp (behaviour (env_AI ag) (call_count (env_AI ag))) of
         None \<Rightarrow> True
       | Some parsed \<Rightarrow> \<not> truthy_num (prop_amount parsed) \<or> \<not> truthy_str (prop_merchant parsed))) \<and>
   (isl (fst (parseAndAddExpense jp env t ag)) \<longrightarrow>
      state (snd (parseAndAddExpense jp env t ag)) = state ag \<and>
      storage (snd (parseAndAddExpense jp env t ag)) = storage ag) \<and>
   (\<not> isl (fst (parseAndAddExpense jp env t ag)) \<longrightarrow>
      expenses (state (snd (parseAndAddExpense jp env t ag))) =
        expenses (state ag) @ [projr (fst (parseAndAddExpense jp env t ag))]) \<and>
   (isl (fst (parseAndAddExpense jp env t (initialize (userId_of param) ag))) \<longrightarrow>
      fst (fetch_POST_expenses_parse jp param env t ag) =
        \<lparr>status = 400,
         body = ErrorResult False
                  (error_message (projl (fst (parseAndAddExpense jp env t (initialize (userId_of param) ag)))))\<rparr>) \<and>
   (\<not> isl (fst (parseAndAddExpense jp env t (initialize (userId_of param) ag))) \<longrightarrow>
      status (fst (fetch_POST_expenses_parse jp param env t ag)) = 200)"
proof -
  have r: "isl (fst (parseAndAddExpense jp env t (initialize (userId_of param) ag))) \<longrightarrow>
      fst (fetch_POST_expenses_parse jp param env t ag) =
        \<lparr>status = 400,
         body = ErrorResult False
                  (error_message (projl (fst (parseAndAddExpense jp env t (initialize (userId_of param) ag)))))\<rparr>"
    by (auto simp: fetch_parse_response split: sum.splits)
  have q: "\<not> isl (fst (parseAndAddExpense jp env t (initialize (userId_of param) ag))) \<longrightarrow>
      status (fst (fetch_POST_expenses_parse jp param env t ag)) = 200"
    by (auto simp: fetch_parse_response split: sum.splits)
  show ?thesis
    using parseAndAddExpense_raises [of jp env t ag] parseAndAddExpense_unchanged [of jp env t ag]
      parseAndAddExpense_added [of jp env t ag] r q
    by blast
qed

lemma strip_fenced:
  "strip_fences fenced_reply = ''{\"amount\": 9, \"merchant\": \"Starbucks\"}'' @ [CHR 0x0A]"
  by code_simp

lemma json_fenced: "json_parse0 (strip_fences fenced_reply) = Some (JObj (Some (Finite 9)) (Some ''Starbucks''))"
  by code_simp

lemma json_null: "json_parse0 (strip_fences ''null'') = Some JNull"
  by code_simp

lemma json_text: "json_parse0 (strip_fences ''Sorry, I cannot help'') = None"
  by code_simp

theorem C5_witness:
  "isl (fst (parseAndAddExpense json_parse0 env0 ''hello'' (agent_with [lunch] (ai_says ''null'')))) \<and>
   state (snd (parseAndAddExpense json_parse0 env0 ''hello'' (agent_with [lunch] (ai_says ''null'')))) =
     state (agent_with [lunch] (ai_says ''null'')) \<and>
   isl (fst (parseAndAddExpense json_parse0 env0 ''hello'' (agent_with [lunch] (ai_says ''Sorry, I cannot help'')))) \<and>
   fst (fetch_POST_expenses_parse json_parse0 None env0 ''hello'' (agent_with [lunch] (ai_says ''Sorry, I cannot help''))) =
     \<lparr>status = 400, body = ErrorResult False ''Could not parse expense. Try format: \"Spent $45 at Chipotle\"''\<rparr> \<and>
   \<not> isl (fst (parseAndAddExpense json_parse0 env0 ''Spent $9 at Starbucks'' (agent_with [lunch] (ai_says fenced_reply)))) \<and>
   expenses (state (snd (parseAndAddExpense json_parse0 env0 ''Spent $9 at Starbucks'' (agent_with [lunch] (ai_says fenced_reply))))) =
     [lunch, projr (fst (parseAndAddExpense json_parse0 env0 ''Spent $9 at Starbucks'' (agent_with [lunch] (ai_says fenced_reply))))]"
proof -
  have a: "reply_value json_parse0 (behaviour (env_AI (agent_with [lunch] (ai_says ''null''))) (call_count (env_AI (agent_with [lunch] (ai_says ''null''))))) = Some JNull"
    by (simp add: agent_with_def constructor_def ai_says_def reply_value_def json_null)
  have b: "reply_value json_parse0 (behaviour (env_AI (agent_with [lunch] (ai_says ''Sorry, I cannot help''))) (call_count (env_AI (agent_with [lunch] (ai_says ''Sorry, I cannot help''))))) = None"
    by (simp add: agent_with_def constructor_def ai_says_def reply_value_def json_text)
  have b': "reply_value json_parse0 (behaviour (env_AI (initialize (userId_of None) (agent_with [lunch] (ai_says ''Sorry, I cannot help'')))) (call_count (env_AI (initialize (userId_of None) (agent_with [lunch] (ai_says ''Sorry, I cannot help'')))))) = None"
    by (simp add: agent_with_def constructor_def ai_says_def reply_value_def json_text initialize_def saveState_def)
  have c: "reply_value json_parse0 (behaviour (env_AI (agent_with [lunch] (ai_says fenced_reply))) (call_count (env_AI (agent_with [lunch] (ai_says fenced_reply))))) = Some (JObj (Some (Finite 9)) (Some ''Starbucks''))"
    by (simp add: agent_with_def constructor_def ai_says_def reply_value_def json_fenced)
  have m: "error_message (projl (fst (parseAndAddExpense json_parse0 env0 ''hello'' (initialize (userId_of None) (agent_with [lunch] (ai_says ''Sorry, I cannot help'')))))) = ''Could not parse expense. Try format: \"Spent $45 at Chipotle\"''"
    by (simp add: parseAndAddExpense_def run_def Let_def normalise_reply_def json_text
        agent_with_def constructor_def ai_says_def initialize_def saveState_def)
  have e: "expenses (state (agent_with [lunch] (ai_says fenced_reply))) = [lunch]"
    by (simp add: agent_with_def constructor_def)
  have w1: "isl (fst (parseAndAddExpense json_parse0 env0 ''hello'' (agent_with [lunch] (ai_says ''null'')))) \<and>
      state (snd (parseAndAddExpense json_parse0 env0 ''hello'' (agent_with [lunch] (ai_says ''null'')))) =
        state (agent_with [lunch] (ai_says ''null''))"
    using C5_parse_errors [of json_parse0 env0 "''hello''" "agent_with [lunch] (ai_says ''null'')" None]
    by (simp add: a truthy_num_def)
  have w2: "isl (fst (parseAndAddExpense json_parse0 env0 ''hello'' (agent_with [lunch] (ai_says ''Sorry, I cannot help''))))"
    using C5_parse_errors [of json_parse0 env0 "''hello''" "agent_with [lunch] (ai_says ''Sorry, I cannot help'')" None]
    by (simp add: b)
  have w3: "isl (fst (parseAndAddExpense json_parse0 env0 ''hello''
                  (initialize (userId_of None) (agent_with [lunch] (ai_says ''Sorry, I cannot help'')))))"
    using C5_parse_errors [of json_parse0 env0 "''hello''"
        "initialize (userId_of None) (agent_with [lunch] (ai_says ''Sorry, I cannot help''))" None]
    by (simp add: b')
  have w4: "fst (fetch_POST_expenses_parse json_parse0 None env0 ''hello'' (agent_with [lunch] (ai_says ''Sorry, I cannot help''))) =
     \<lparr>status = 400, body = ErrorResult False ''Could not parse expense. Try format: \"Spent $45 at Chipotle\"''\<rparr>"
    using w3 C5_parse_errors [of json_parse0 env0 "''hello''" "agent_with [lunch] (ai_says ''Sorry, I cannot help'')" None]
    by (simp only: m)
  have w5: "\<not> isl (fst (parseAndAddExpense json_parse0 env0 ''Spent $9 at Starbucks'' (agent_with [lunch] (ai_says fenced_reply))))"
    using C5_parse_errors [of json_parse0 env0 "''Spent $9 at Starbucks''" "agent_with [lunch] (ai_says fenced_reply)" None]
    by (simp add: c truthy_num_def truthy_str_def)
  have w6: "expenses (state (snd (parseAndAddExpense json_parse0 env0 ''Spent $9 at Starbucks'' (agent_with [lunch] (ai_says fenced_reply))))) =
     [lunch, projr (fst (parseAndAddExpense json_parse0 env0 ''Spent $9 at Starbucks'' (agent_with [lunch] (ai_says fenced_reply))))]"
    using w5 C5_parse_errors [of json_parse0 env0 "''Spent $9 at Starbucks''" "agent_with [lunch] (ai_says fenced_reply)" None]
    by (simp add: e)
  show ?thesis using w1 w2 w4 w5 w6 by blast
qed


section \<open>Chat extraction\<close>

lemma spent_starbucks: "extract_fields spent_pattern ''I spent $9 at Starbucks'' = Some (Finite 9, ''Starbucks'')"
  by code_simp

text \<open>The cleanup removes trailing punctuation and cuts at a temporal qualifier.\<close>

lemma spent_starbucks_today:
  "extract_fields spent_pattern ''I spent $9 at Starbucks today.'' = Some (Finite 9, ''Starbucks'')"
  by code_simp

lemma spent_coffee: "extract_fields spent_pattern ''bought coffee for $5'' = None"
  by code_simp

lemma dollar_coffee: "extract_fields dollar_pattern ''bought coffee for $5'' = None"
  by code_simp

lemma bought_coffee: "extract_fields bought_pattern ''bought coffee for $5'' = Some (Finite 5, ''coffee'')"
  by code_simp

text \<open>
  Claim C2. With the three patterns tried in order, the message \<open>''I spent $9 at Starbucks''\<close>
  is matched by the first pattern with amount 9 and merchant \<open>''Starbucks''\<close>, and the message
  \<open>''bought coffee for $5''\<close> is matched by no pattern before the third, which gives amount 5
  and merchant \<open>''coffee''\<close> (the merchant after the cleanup). In both cases the loop sets
  \<^verbatim>\<open>expenseAdded\<close> and appends one expense with that amount and merchant.
\<close>

theorem C2_chat_extraction:
  "extract_fields (expensePatterns ! 0) ''I spent $9 at Starbucks'' = Some (Finite 9, ''Starbucks'') \<and>
   map (\<lambda>p. extract_fields p ''bought coffee for $5'') expensePatterns = [None, None, Some (Finite 5, ''coffee'')] \<and>
   fst (fetch_chat_extract expensePatterns env ''I spent $9 at Starbucks'' ag) = True \<and>
   (\<exists>e. expenses (state (snd (fetch_chat_extract expensePatterns env ''I spent $9 at Starbucks'' ag))) =
          expenses (state ag) @ [e] \<and> amount e = Finite 9 \<and> merchant e = ''Starbucks'') \<and>
   fst (fetch_chat_extract expensePatterns env ''bought coffee for $5'' ag) = True \<and>
   (\<exists>e. expenses (state (snd (fetch_chat_extract expensePatterns env ''bought coffee for $5'' ag))) =
          expenses (state ag) @ [e] \<and> amount e = Finite 5 \<and> merchant e = ''coffee'')"
  by (simp add: expensePatterns_def spent_starbucks spent_coffee dollar_coffee bought_coffee
      positive_def case_prod_beta addExpense_state addExpense_fields)

section \<open>Top category\<close>

lemma round_double_not_NaN: "round_double q \<noteq> NaN"
  by (simp add: round_double_def Let_def)

lemma js_add_finite_not_NaN: "x \<noteq> NaN \<Longrightarrow> js_add x (Finite b) \<noteq> NaN"
  by (cases x) (simp_all add: round_double_not_NaN)

lemma or_zero_Some: "t \<noteq> NaN \<Longrightarrow> or_zero (Some t) = t"
  by (cases t) (simp_all add: or_zero_def)

lemma or_zero_None: "or_zero None = Finite 0"
  by (simp add: or_zero_def)

lemma js_less_irrefl: "\<not> js_less x x"
  by (cases x) simp_all

lemma js_less_trans: "js_less x y \<Longrightarrow> js_less y z \<Longrightarrow> js_less x z"
  by (cases x; cases y; cases z) simp_all

lemma js_less_asym: "js_less x y \<Longrightarrow> \<not> js_less y x"
  by (cases x; cases y) simp_all

lemma js_less_between: "js_less x z \<Longrightarrow> y \<noteq> NaN \<Longrightarrow> js_less x y \<or> js_less y z"
  by (cases x; cases y; cases z) auto

lemma category_totals_snoc:
  "category_totals (es @ [e]) =
     AList.update (category e) (js_add (or_zero (map_of (category_totals es) (category e))) (amount e))
       (category_totals es)"
  by (simp add: category_totals_def)

lemma category_total_snoc:
  "category_total (es @ [e]) c =
     (if category e = c then js_add (category_total es c) (amount e) else category_total es c)"
  by (simp add: category_total_def double_sum_def)

lemma category_total_unseen: "c \<notin> category ` set es \<Longrightarrow> category_total es c = Finite 0"
proof -
  assume "c \<notin> category ` set es"
  then have "filter (\<lambda>e. category e = c) es = []" by (auto simp: filter_empty_conv)
  then show ?thesis by (simp add: category_total_def double_sum_def)
qed

lemma is_finite_Finite: "is_finite x \<Longrightarrow> \<exists>q. x = Finite q"
  by (cases x) (simp_all add: is_finite_def)

lemma category_total_not_NaN:
  "\<forall>e \<in> set es. is_finite (amount e) \<Longrightarrow> category_total es c \<noteq> NaN"
proof (induction es rule: rev_induct)
  case Nil
  then show ?case by (simp add: category_total_def double_sum_def)
next
  case (snoc e es)
  then have ih: "category_total es c \<noteq> NaN" by simp
  from snoc.prems obtain q where q: "amount e = Finite q"
    using is_finite_Finite [of "amount e"] by auto
  show ?case
    using ih js_add_finite_not_NaN [OF ih, of q] by (simp add: category_total_snoc q)
qed

lemma map_of_category_totals:
  "\<forall>e \<in> set es. is_finite (amount e) \<Longrightarrow>
   map_of (category_totals es) c =
     (if c \<in> category ` set es then Some (category_total es c) else None)"
proof (induction es rule: rev_induct)
  case Nil
  then show ?case by (simp add: category_totals_def)
next
  case (snoc e es)
  then have fin: "\<forall>e \<in> set es. is_finite (amount e)" by simp
  note ih = snoc.IH [OF fin]
  show ?case
  proof (cases "category e = c")
    case True
    show ?thesis
    proof (cases "c \<in> category ` set es")
      case seen: True
      have "or_zero (map_of (category_totals es) c) = category_total es c"
        using ih seen or_zero_Some [OF category_total_not_NaN [OF fin, of c]] by simp
      then show ?thesis
        using True by (simp add: category_totals_snoc update_conv' category_total_snoc)
    next
      case unseen: False
      have "or_zero (map_of (category_totals es) c) = category_total es c"
        using ih unseen category_total_unseen [OF unseen] by (simp add: or_zero_None)
      then show ?thesis
        using True by (simp add: category_totals_snoc update_conv' category_total_snoc)
    qed
  next
    case False
    then show ?thesis
      using ih by (auto simp: category_totals_snoc update_conv' category_total_snoc)
  qed
qed

lemma keys_category_totals: "set (map fst (category_totals es)) = category ` set es"
proof (induction es rule: rev_induct)
  case Nil
  then show ?case by (simp add: category_totals_def)
next
  case (snoc e es)
  then show ?case by (auto simp: category_totals_snoc update_keys)
qed

lemma distinct_category_totals: "distinct (map fst (category_totals es))"
proof (induction es rule: rev_induct)
  case Nil
  then show ?case by (simp add: category_totals_def)
next
  case (snoc e es)
  then show ?case by (simp add: category_totals_snoc distinct_update)
qed

lemma first_position_less: "c \<in> category ` set es \<Longrightarrow> first_position es c < length es"
proof -
  assume "c \<in> category ` set es"
  then have "takeWhile (\<lambda>e. category e \<noteq> c) es \<noteq> es" by auto
  moreover have "takeWhile (\<lambda>e. category e \<noteq> c) es =
      take (length (takeWhile (\<lambda>e. category e \<noteq> c) es)) es"
    by (rule takeWhile_eq_take)
  ultimately have "length (takeWhile (\<lambda>e. category e \<noteq> c) es) \<noteq> length es"
    by (metis take_all order_refl)
  then show ?thesis
    unfolding first_position_def
    using length_takeWhile_le [of "\<lambda>e. category e \<noteq> c" es] by simp
qed

lemma first_position_snoc_seen:
  "c \<in> category ` set es \<Longrightarrow> first_position (es @ [e]) c = first_position es c"
proof -
  assume "c \<in> category ` set es"
  then obtain x where "x \<in> set es" "\<not> category x \<noteq> c" by auto
  then show ?thesis
    unfolding first_position_def by (simp add: takeWhile_append1)
qed

lemma first_position_snoc_new:
  "category e \<notin> category ` set es \<Longrightarrow> first_position (es @ [e]) (category e) = length es"
proof -
  assume "category e \<notin> category ` set es"
  then have "\<And>x. x \<in> set es \<Longrightarrow> category x \<noteq> category e" by (metis imageI)
  then show ?thesis
    unfolding first_position_def by (simp add: takeWhile_append2)
qed

lemma keys_sorted_by_first_position:
  "sorted_wrt (\<lambda>a b. first_position es a < first_position es b) (map fst (category_totals es))"
proof (induction es rule: rev_induct)
  case Nil
  then show ?case by (simp add: category_totals_def)
next
  case (snoc e es)
  let ?K = "map fst (category_totals es)"
  have old: "sorted_wrt (\<lambda>a b. first_position (es @ [e]) a < first_position (es @ [e]) b) ?K"
  proof (rule sorted_wrt_mono_rel [OF _ snoc])
    fix a b
    assume "a \<in> set ?K" "b \<in> set ?K" "first_position es a < first_position es b"
    then show "first_position (es @ [e]) a < first_position (es @ [e]) b"
      by (simp add: keys_category_totals first_position_snoc_seen del: set_map)
  qed
  show ?case
  proof (cases "category e \<in> set ?K")
    case True
    then show ?thesis using old by (simp add: category_totals_snoc update_keys)
  next
    case False
    then have new: "category e \<notin> category ` set es"
      using keys_category_totals [of es] by simp
    have "\<forall>a \<in> set ?K. first_position (es @ [e]) a < first_position (es @ [e]) (category e)"
    proof
      fix a
      assume "a \<in> set ?K"
      then have "a \<in> category ` set es" using keys_category_totals [of es] by simp
      then show "first_position (es @ [e]) a < first_position (es @ [e]) (category e)"
        by (simp add: first_position_snoc_seen first_position_snoc_new [OF new] first_position_less)
    qed
    then show ?thesis
      using old False by (simp add: category_totals_snoc update_keys sorted_wrt_append)
  qed
qed

lemma hd_insert_by:
  "hd (insert_by stays x zs) = (if zs = [] \<or> stays x (hd zs) then x else hd zs)"
  by (cases zs) simp_all

lemma insert_by_not_Nil: "insert_by stays x zs \<noteq> []"
  by (cases zs) simp_all

lemma stable_sort_Cons: "stable_sort stays (x # xs) = insert_by stays x (stable_sort stays xs)"
  by (simp add: stable_sort_def)

lemma stable_sort_not_Nil: "xs \<noteq> [] \<Longrightarrow> stable_sort stays xs \<noteq> []"
  by (cases xs) (simp_all add: stable_sort_Cons insert_by_not_Nil)

lemma hd_stable_sort_first_maximum:
  "xs \<noteq> [] \<Longrightarrow> \<forall>p \<in> set xs. snd p \<noteq> NaN \<Longrightarrow>
    \<exists>pre post. xs = pre @ hd (stable_sort descending xs) # post \<and>
      (\<forall>p \<in> set pre. js_less (snd p) (snd (hd (stable_sort descending xs)))) \<and>
      (\<forall>q \<in> set post. \<not> js_less (snd (hd (stable_sort descending xs))) (snd q))"
proof (induction xs)
  case Nil
  then show ?case by simp
next
  case (Cons x ys)
  show ?case
  proof (cases "ys = []")
    case True
    have h: "hd (stable_sort descending (x # ys)) = x"
      using True by (simp add: stable_sort_def)
    have "x # ys = [] @ x # [] \<and> (\<forall>p \<in> set []. js_less (snd p) (snd x)) \<and>
          (\<forall>q \<in> set []. \<not> js_less (snd x) (snd q))"
      using True by simp
    then show ?thesis unfolding h by (intro exI)
  next
    case False
    define m where "m = hd (stable_sort descending ys)"
    have nn: "\<forall>p \<in> set ys. snd p \<noteq> NaN" using Cons.prems by simp
    from Cons.IH [OF False nn] obtain pre post where
      ys: "ys = pre @ m # post" and
      pre: "\<forall>p \<in> set pre. js_less (snd p) (snd m)" and
      post: "\<forall>q \<in> set post. \<not> js_less (snd m) (snd q)"
      unfolding m_def by blast
    have mn: "snd m \<noteq> NaN" using nn ys by simp
    have ne: "stable_sort descending ys \<noteq> []" using False by (rule stable_sort_not_Nil)
    have hd_eq: "hd (stable_sort descending (x # ys)) = (if js_less (snd x) (snd m) then m else x)"
      unfolding m_def stable_sort_Cons hd_insert_by using ne by (simp add: descending_def)
    show ?thesis
    proof (cases "js_less (snd x) (snd m)")
      case True
      then have h: "hd (stable_sort descending (x # ys)) = m" by (simp only: hd_eq if_True)
      have "x # ys = (x # pre) @ m # post \<and> (\<forall>p \<in> set (x # pre). js_less (snd p) (snd m)) \<and>
            (\<forall>q \<in> set post. \<not> js_less (snd m) (snd q))"
        using True pre post by (simp add: ys)
      then show ?thesis unfolding h by (intro exI)
    next
      case False
      then have h: "hd (stable_sort descending (x # ys)) = x" by (simp only: hd_eq if_False)
      have least: "\<not> js_less (snd x) (snd q)" if q: "q \<in> set ys" for q
      proof
        assume xq: "js_less (snd x) (snd q)"
        from js_less_between [OF xq mn] False have mq: "js_less (snd m) (snd q)" by simp
        from q consider "q \<in> set pre" | "q = m" | "q \<in> set post" unfolding ys by auto
        then show False
        proof cases
          case 1
          then have "js_less (snd q) (snd m)" using pre by blast
          then show False using mq js_less_asym by blast
        next
          case 2
          then show False using mq js_less_irrefl by simp
        next
          case 3
          then show False using mq post by blast
        qed
      qed
      have "x # ys = [] @ x # ys \<and> (\<forall>p \<in> set []. js_less (snd p) (snd x)) \<and>
            (\<forall>q \<in> set ys. \<not> js_less (snd x) (snd q))"
        using least by simp
      then show ?thesis unfolding h by (intro exI)
    qed
  qed
qed

lemma set_object_entries: "set (object_entries obj) = set obj"
  by (auto simp: object_entries_def)

lemma entries_sorted:
  "sorted_wrt (\<lambda>x y. enumerated_before es (fst x) (fst y)) (object_entries (category_totals es))"
proof -
  let ?T = "category_totals es"
  let ?A = "sort_key (\<lambda>kv. digits_value (fst kv)) (filter (\<lambda>kv. is_array_index (fst kv)) ?T)"
  let ?B = "filter (\<lambda>kv. \<not> is_array_index (fst kv)) ?T"
  let ?R = "\<lambda>x y. enumerated_before es (fst x) (fst y)"
  have "sorted_wrt (\<lambda>x y. digits_value (fst x) \<le> digits_value (fst y)) ?A"
    using sorted_sort_key [of "\<lambda>kv. digits_value (fst kv)" "filter (\<lambda>kv. is_array_index (fst kv)) ?T"]
    by (simp add: sorted_map)
  then have a: "sorted_wrt ?R ?A"
    by (rule sorted_wrt_mono_rel [rotated]) (auto simp: enumerated_before_def)
  have "sorted_wrt (\<lambda>x y. first_position es (fst x) < first_position es (fst y)) ?T"
    using keys_sorted_by_first_position [of es] by (simp add: sorted_wrt_map)
  then have "sorted_wrt (\<lambda>x y. first_position es (fst x) < first_position es (fst y)) ?B"
    by (rule sorted_wrt_filter)
  then have b: "sorted_wrt ?R ?B"
    by (rule sorted_wrt_mono_rel [rotated]) (auto simp: enumerated_before_def)
  have c: "\<forall>x \<in> set ?A. \<forall>y \<in> set ?B. ?R x y"
    by (auto simp: enumerated_before_def)
  show ?thesis
    unfolding object_entries_def using a b c by (simp add: sorted_wrt_append)
qed

lemma entry_total:
  assumes "\<forall>e \<in> set es. is_finite (amount e)" and "kv \<in> set (category_totals es)"
  shows "fst kv \<in> category ` set es \<and> snd kv = category_total es (fst kv)"
proof -
  have "map_of (category_totals es) (fst kv) = Some (snd kv)"
    using assms(2) distinct_category_totals [of es] by simp
  then show ?thesis
    by (simp add: map_of_category_totals [OF assms(1)] split: if_splits)
qed

lemma total_entry:
  assumes "\<forall>e \<in> set es. is_finite (amount e)" and "e \<in> set es"
  shows "(category e, category_total es (category e)) \<in> set (category_totals es)"
proof -
  have "map_of (category_totals es) (category e) = Some (category_total es (category e))"
    using assms(2) by (simp add: map_of_category_totals [OF assms(1)])
  then show ?thesis by (rule map_of_SomeD)
qed

lemma top_entry_properties:
  assumes "es \<noteq> []" and fin: "\<forall>e \<in> set es. is_finite (amount e)"
  shows "\<exists>c. top_entry (category_totals es) = Some (c, category_total es c) \<and>
             c \<in> category ` set es \<and>
             (\<forall>e \<in> set es. \<not> js_less (category_total es c) (category_total es (category e))) \<and>
             (\<forall>e \<in> set es. category_total es (category e) = category_total es c \<and> category e \<noteq> c \<longrightarrow>
                enumerated_before es c (category e))"
proof -
  define T where "T = category_totals es"
  define E where "E = object_entries T"
  define top where "top = hd (stable_sort descending E)"
  obtain e0 where e0: "e0 \<in> set es" using assms by (cases es) auto
  have setE: "set E = set T" by (simp add: E_def set_object_entries)
  have ne: "E \<noteq> []"
    using total_entry [OF fin e0] setE by (auto simp: T_def)
  then have sne: "stable_sort descending E \<noteq> []" by (rule stable_sort_not_Nil)
  have top: "top_entry T = Some top"
    using sne by (cases "stable_sort descending E") (simp_all add: top_entry_def top_def E_def)
  have nn: "\<forall>p \<in> set E. snd p \<noteq> NaN"
  proof
    fix p assume "p \<in> set E"
    then have "p \<in> set (category_totals es)" using setE by (simp add: T_def)
    from entry_total [OF fin this] show "snd p \<noteq> NaN"
      using category_total_not_NaN [OF fin] by simp
  qed
  from hd_stable_sort_first_maximum [OF ne nn] obtain pre post where
    E: "E = pre @ top # post" and
    pre: "\<forall>p \<in> set pre. js_less (snd p) (snd top)" and
    post: "\<forall>q \<in> set post. \<not> js_less (snd top) (snd q)"
    unfolding top_def by blast
  have mem: "set E = set pre \<union> {top} \<union> set post"
    unfolding E by auto
  have "top \<in> set (category_totals es)" using mem setE by (auto simp: T_def)
  from entry_total [OF fin this] have topc: "fst top \<in> category ` set es"
    and topv: "snd top = category_total es (fst top)" by auto
  have order: "sorted_wrt (\<lambda>x y. enumerated_before es (fst x) (fst y)) (pre @ top # post)"
    using entries_sorted [of es] E by (simp add: E_def T_def)
  have maxi: "\<forall>e \<in> set es. \<not> js_less (category_total es (fst top)) (category_total es (category e))"
  proof
    fix e assume "e \<in> set es"
    from total_entry [OF fin this] have "(category e, category_total es (category e)) \<in> set E"
      by (simp add: setE T_def)
    then consider "(category e, category_total es (category e)) \<in> set pre"
      | "(category e, category_total es (category e)) = top"
      | "(category e, category_total es (category e)) \<in> set post"
      unfolding mem by blast
    then show "\<not> js_less (category_total es (fst top)) (category_total es (category e))"
    proof cases
      case 1
      then have "js_less (snd (category e, category_total es (category e))) (snd top)"
        using pre by blast
      then show ?thesis using topv js_less_asym by simp
    next
      case 2
      then have "category_total es (category e) = snd top" by (metis snd_conv)
      then show ?thesis using topv js_less_irrefl by simp
    next
      case 3
      then have "\<not> js_less (snd top) (snd (category e, category_total es (category e)))"
        using post by blast
      then show ?thesis using topv by simp
    qed
  qed
  have tie: "\<forall>e \<in> set es. category_total es (category e) = category_total es (fst top) \<and>
      category e \<noteq> fst top \<longrightarrow> enumerated_before es (fst top) (category e)"
  proof (intro ballI impI)
    fix e assume e: "e \<in> set es"
      and t: "category_total es (category e) = category_total es (fst top) \<and> category e \<noteq> fst top"
    define kv where "kv = (category e, category_total es (category e))"
    from total_entry [OF fin e] have "kv \<in> set E" by (simp add: setE T_def kv_def)
    moreover have "kv \<notin> set pre"
    proof
      assume "kv \<in> set pre"
      then have "js_less (snd kv) (snd top)" using pre by blast
      then show False using t topv js_less_irrefl by (simp add: kv_def)
    qed
    moreover have "kv \<noteq> top"
    proof
      assume "kv = top"
      then have "fst top = category e" unfolding kv_def by (metis fst_conv)
      then show False using t by simp
    qed
    ultimately have "kv \<in> set post" unfolding mem by blast
    then have "enumerated_before es (fst top) (fst kv)"
      using order by (auto simp: sorted_wrt_append)
    then show "enumerated_before es (fst top) (category e)" by (simp add: kv_def)
  qed
  have "top_entry (category_totals es) = Some (fst top, category_total es (fst top))"
    using top topv unfolding T_def by (metis prod.collapse)
  then show ?thesis using topc maxi tie by blast
qed


lemma ctx_two:
  "topCategory (fst (getSpendingContext (agent_with [lunch, locker] (ai_says ''Food'')))) = ''7''"
  by code_simp

lemma tie_two:
  "category_total [lunch, locker] ''Food'' = category_total [lunch, locker] ''7'' \<and>
   first_position [lunch, locker] ''Food'' < first_position [lunch, locker] ''7''"
  by code_simp

lemma plain_two: "list_all (\<lambda>e. category e \<notin> set object_prototype_names) [lunch, locker]"
  by code_simp

lemma ctx_small:
  "topCategory (fst (getSpendingContext (agent_with small_expenses (ai_says ''Food'')))) = ''Food''"
  by code_simp

lemma tie_small:
  "exact_total small_expenses ''Transport'' = exact_total small_expenses ''Food'' \<and>
   first_position small_expenses ''Transport'' < first_position small_expenses ''Food''"
  by code_simp

lemma totals_small:
  "category_total small_expenses ''Food'' = Finite (5404319552844596 / 9007199254740992) \<and>
   category_total small_expenses ''Transport'' = Finite (5404319552844595 / 9007199254740992)"
  by code_simp

lemma total_small:
  "totalSpent (fst (getSpendingContext (agent_with small_expenses (ai_says ''Food'')))) =
     Finite (1351079888211149 / 1125899906842624) \<and>
   sum_list (map (\<lambda>e. exact_value (amount e)) small_expenses) = 21617278211378381 / 18014398509481984"
  by code_simp

lemma plain_small:
  "list_all (\<lambda>e. category e \<notin> set object_prototype_names) small_expenses \<and>
   list_all (\<lambda>e. is_finite (amount e)) small_expenses \<and>
   list_all (\<lambda>e. \<not> is_array_index (category e)) small_expenses"
  by code_simp

text \<open>
  The claim C4 as stated fails in its tie rule: with a first expense in category \<open>''Food''\<close>
  and a second one of the same amount in category \<open>''7''\<close>, the totals tie and the first
  expense of \<open>''Food''\<close> comes earlier, yet the top category is \<open>''7''\<close>, because
  \<^verbatim>\<open>Object.entries\<close> lists array-index keys first. It also fails when sums are read as exact
  sums: in \<open>small_expenses\<close> the two categories hold the same three amounts, \<open>''Transport''\<close>
  comes first, yet the top category is \<open>''Food''\<close>, because the totals are formed by rounded
  additions in list order; and the total spent differs from the exact sum of the amounts.
\<close>

theorem C4_counterexample:
  "expenses (state (agent_with [lunch, locker] (ai_says ''Food''))) = [lunch, locker] \<and>
   list_all (\<lambda>e. category e \<notin> set object_prototype_names) [lunch, locker] \<and>
   category_total [lunch, locker] ''Food'' = category_total [lunch, locker] ''7'' \<and>
   first_position [lunch, locker] ''Food'' < first_position [lunch, locker] ''7'' \<and>
   topCategory (fst (getSpendingContext (agent_with [lunch, locker] (ai_says ''Food'')))) = ''7'' \<and>
   expenses (state (agent_with small_expenses (ai_says ''Food''))) = small_expenses \<and>
   list_all (\<lambda>e. category e \<notin> set object_prototype_names) small_expenses \<and>
   exact_total small_expenses ''Transport'' = exact_total small_expenses ''Food'' \<and>
   first_position small_expenses ''Transport'' < first_position small_expenses ''Food'' \<and>
   topCategory (fst (getSpendingContext (agent_with small_expenses (ai_says ''Food'')))) = ''Food'' \<and>
   totalSpent (fst (getSpendingContext (agent_with small_expenses (ai_says ''Food'')))) \<noteq>
     Finite (sum_list (map (\<lambda>e. exact_value (amount e)) small_expenses))"
proof -
  have a: "expenses (state (agent_with es (ai_says ''Food''))) = es" for es
    by (simp add: agent_with_def constructor_def)
  have b: "totalSpent (fst (getSpendingContext (agent_with small_expenses (ai_says ''Food'')))) \<noteq>
     Finite (sum_list (map (\<lambda>e. exact_value (amount e)) small_expenses))"
    by (simp add: total_small)
  show ?thesis
    by (intro conjI a plain_two tie_two [THEN conjunct1] tie_two [THEN conjunct2] ctx_two
        plain_small [THEN conjunct1] tie_small [THEN conjunct1] tie_small [THEN conjunct2]
        ctx_small b)
qed

text \<open>
  Claim C4, amended. For every agent whose stored amounts are finite numbers and whose
  category names are no property names of \<^verbatim>\<open>Object.prototype\<close>, \<open>getSpendingContext\<close> returns
  the sum of all stored amounts, formed in double arithmetic in list order, the number of
  stored expenses and the last 5 expenses in add order, and leaves the agent as it is. With at
  least one expense, the top category is a stored category, the top amount is its total (the
  sum of its amounts, formed in double arithmetic in list order), no category has a larger
  total, and among categories with an equal total the top category is the one that
  \<^verbatim>\<open>Object.entries\<close> lists first: array-index names in ascending numeric order before all other
  names, other names in the order of their first expense. In particular, when no category name
  is an array index, a tie goes to the category whose first expense occurs earliest.
\<close>

theorem C4_amended:
  assumes "\<forall>e \<in> set (expenses (state ag)). category e \<notin> set object_prototype_names"
    and "\<forall>e \<in> set (expenses (state ag)). is_finite (amount e)"
  shows "totalSpent (fst (getSpendingContext ag)) = double_sum (map amount (expenses (state ag))) \<and>
    expenseCount (fst (getSpendingContext ag)) = length (expenses (state ag)) \<and>
    recentExpenses (fst (getSpendingContext ag)) = slice_last 5 (expenses (state ag)) \<and>
    snd (getSpendingContext ag) = ag \<and>
    (expenses (state ag) \<noteq> [] \<longrightarrow>
       topCategory (fst (getSpendingContext ag)) \<in> category ` set (expenses (state ag)) \<and>
       topAmount (fst (getSpendingContext ag)) =
         category_total (expenses (state ag)) (topCategory (fst (getSpendingContext ag))) \<and>
       (\<forall>e \<in> set (expenses (state ag)).
          \<not> js_less (topAmount (fst (getSpendingContext ag)))
              (category_total (expenses (state ag)) (category e))) \<and>
       (\<forall>e \<in> set (expenses (state ag)).
          category_total (expenses (state ag)) (category e) = topAmount (fst (getSpendingContext ag)) \<and>
          category e \<noteq> topCategory (fst (getSpendingContext ag)) \<longrightarrow>
            enumerated_before (expenses (state ag)) (topCategory (fst (getSpendingContext ag))) (category e)) \<and>
       ((\<forall>e \<in> set (expenses (state ag)). \<not> is_array_index (category e)) \<longrightarrow>
          (\<forall>e \<in> set (expenses (state ag)).
             category_total (expenses (state ag)) (category e) = topAmount (fst (getSpendingContext ag)) \<longrightarrow>
               first_position (expenses (state ag)) (topCategory (fst (getSpendingContext ag)))
                 \<le> first_position (expenses (state ag)) (category e))))"
proof -
  define es where "es = expenses (state ag)"
  define ctx where "ctx = fst (getSpendingContext ag)"
  have fin: "\<forall>e \<in> set es. is_finite (amount e)" using assms(2) by (simp add: es_def)
  have basic: "totalSpent ctx = double_sum (map amount es) \<and> expenseCount ctx = length es \<and>
      recentExpenses ctx = slice_last 5 es \<and> snd (getSpendingContext ag) = ag"
    by (simp add: ctx_def es_def getSpendingContext_def Let_def foldl_amount_sum double_sum_def)
  have top: "topCategory ctx = (case top_entry (category_totals es) of Some kv \<Rightarrow> fst kv | None \<Rightarrow> ''Unknown'')"
    and amt: "topAmount ctx = (case top_entry (category_totals es) of Some kv \<Rightarrow> snd kv | None \<Rightarrow> Finite 0)"
    by (simp_all add: ctx_def es_def getSpendingContext_def Let_def)
  have main: "es \<noteq> [] \<longrightarrow>
       topCategory ctx \<in> category ` set es \<and>
       topAmount ctx = category_total es (topCategory ctx) \<and>
       (\<forall>e \<in> set es. \<not> js_less (topAmount ctx) (category_total es (category e))) \<and>
       (\<forall>e \<in> set es. category_total es (category e) = topAmount ctx \<and> category e \<noteq> topCategory ctx \<longrightarrow>
            enumerated_before es (topCategory ctx) (category e)) \<and>
       ((\<forall>e \<in> set es. \<not> is_array_index (category e)) \<longrightarrow>
          (\<forall>e \<in> set es. category_total es (category e) = topAmount ctx \<longrightarrow>
               first_position es (topCategory ctx) \<le> first_position es (category e)))"
  proof
    assume "es \<noteq> []"
    from top_entry_properties [OF this fin] obtain c where
      c: "top_entry (category_totals es) = Some (c, category_total es c)" and
      cin: "c \<in> category ` set es" and
      cmax: "\<forall>e \<in> set es. \<not> js_less (category_total es c) (category_total es (category e))" and
      ctie: "\<forall>e \<in> set es. category_total es (category e) = category_total es c \<and> category e \<noteq> c \<longrightarrow>
                enumerated_before es c (category e)"
      by blast
    have tc: "topCategory ctx = c" and ta: "topAmount ctx = category_total es c"
      by (simp_all add: top amt c)
    have plain: "(\<forall>e \<in> set es. \<not> is_array_index (category e)) \<longrightarrow>
          (\<forall>e \<in> set es. category_total es (category e) = category_total es c \<longrightarrow>
               first_position es c \<le> first_position es (category e))"
    proof (intro impI ballI)
      fix e
      assume noidx: "\<forall>e \<in> set es. \<not> is_array_index (category e)"
        and e: "e \<in> set es" and t: "category_total es (category e) = category_total es c"
      show "first_position es c \<le> first_position es (category e)"
      proof (cases "category e = c")
        case True
        then show ?thesis by simp
      next
        case False
        then have "enumerated_before es c (category e)" using ctie e t by blast
        moreover have "\<not> is_array_index (category e)" using noidx e by blast
        moreover have "\<not> is_array_index c" using noidx cin by blast
        ultimately show ?thesis by (simp add: enumerated_before_def)
      qed
    qed
    show "topCategory ctx \<in> category ` set es \<and>
       topAmount ctx = category_total es (topCategory ctx) \<and>
       (\<forall>e \<in> set es. \<not> js_less (topAmount ctx) (category_total es (category e))) \<and>
       (\<forall>e \<in> set es. category_total es (category e) = topAmount ctx \<and> category e \<noteq> topCategory ctx \<longrightarrow>
            enumerated_before es (topCategory ctx) (category e)) \<and>
       ((\<forall>e \<in> set es. \<not> is_array_index (category e)) \<longrightarrow>
          (\<forall>e \<in> set es. category_total es (category e) = topAmount ctx \<longrightarrow>
               first_position es (topCategory ctx) \<le> first_position es (category e)))"
      unfolding tc ta by (intro conjI cin refl cmax ctie plain)
  qed
  show ?thesis
    using basic main unfolding ctx_def es_def by (elim conjE, intro conjI) assumption+
qed

lemma ctx_three_top:
  "topCategory (fst (getSpendingContext (agent_with [lunch, ticket, locker] (ai_says ''Food'')))) = ''7''"
  by code_simp

lemma totals_three:
  "category_total [lunch, ticket, locker] ''Food'' = Finite 5 \<and>
   category_total [lunch, ticket, locker] ''7'' = Finite 5 \<and>
   double_sum (map amount [lunch, ticket, locker]) = Finite 15"
  by code_simp

lemma plain_three:
  "list_all (\<lambda>e. category e \<notin> set object_prototype_names) [lunch, ticket, locker] \<and>
   list_all (\<lambda>e. is_finite (amount e)) [lunch, ticket, locker]"
  by code_simp

lemma sums_small:
  "double_sum (map amount small_expenses) = Finite (1351079888211149 / 1125899906842624) \<and>
   js_less (category_total small_expenses ''Transport'') (category_total small_expenses ''Food'')"
  by code_simp

lemma ctx_pair_top:
  "topCategory (fst (getSpendingContext (agent_with [lunch, ticket] (ai_says ''Food'')))) = ''Food''"
  by code_simp

lemma totals_pair:
  "category_total [lunch, ticket] ''Food'' = Finite 5 \<and>
   category_total [lunch, ticket] ''Transport'' = Finite 5"
  by code_simp

lemma plain_pair:
  "list_all (\<lambda>e. category e \<notin> set object_prototype_names) [lunch, ticket] \<and>
   list_all (\<lambda>e. is_finite (amount e)) [lunch, ticket] \<and>
   list_all (\<lambda>e. \<not> is_array_index (category e)) [lunch, ticket]"
  by code_simp

theorem C4_witness:
  "list_all (\<lambda>e. category e \<notin> set object_prototype_names)
     (expenses (state (agent_with [lunch, ticket, locker] (ai_says ''Food'')))) \<and>
   list_all (\<lambda>e. is_finite (amount e))
     (expenses (state (agent_with [lunch, ticket, locker] (ai_says ''Food'')))) \<and>
   expenses (state (agent_with [lunch, ticket, locker] (ai_says ''Food''))) \<noteq> [] \<and>
   totalSpent (fst (getSpendingContext (agent_with [lunch, ticket, locker] (ai_says ''Food'')))) = Finite 15 \<and>
   expenseCount (fst (getSpendingContext (agent_with [lunch, ticket, locker] (ai_says ''Food'')))) = 3 \<and>
   recentExpenses (fst (getSpendingContext (agent_with [lunch, ticket, locker] (ai_says ''Food'')))) =
     [lunch, ticket, locker] \<and>
   topCategory (fst (getSpendingContext (agent_with [lunch, ticket, locker] (ai_says ''Food'')))) = ''7'' \<and>
   topAmount (fst (getSpendingContext (agent_with [lunch, ticket, locker] (ai_says ''Food'')))) = Finite 5 \<and>
   enumerated_before [lunch, ticket, locker] ''7'' ''Food'' \<and>
   list_all (\<lambda>e. category e \<notin> set object_prototype_names)
     (expenses (state (agent_with small_expenses (ai_says ''Food'')))) \<and>
   list_all (\<lambda>e. is_finite (amount e))
     (expenses (state (agent_with small_expenses (ai_says ''Food'')))) \<and>
   list_all (\<lambda>e. \<not> is_array_index (category e))
     (expenses (state (agent_with small_expenses (ai_says ''Food'')))) \<and>
   totalSpent (fst (getSpendingContext (agent_with small_expenses (ai_says ''Food'')))) =
     Finite (1351079888211149 / 1125899906842624) \<and>
   topCategory (fst (getSpendingContext (agent_with small_expenses (ai_says ''Food'')))) = ''Food'' \<and>
   topAmount (fst (getSpendingContext (agent_with small_expenses (ai_says ''Food'')))) =
     Finite (5404319552844596 / 9007199254740992) \<and>
   js_less (category_total small_expenses ''Transport'')
     (topAmount (fst (getSpendingContext (agent_with small_expenses (ai_says ''Food''))))) \<and>
   list_all (\<lambda>e. \<not> is_array_index (category e))
     (expenses (state (agent_with [lunch, ticket] (ai_says ''Food'')))) \<and>
   topCategory (fst (getSpendingContext (agent_with [lunch, ticket] (ai_says ''Food'')))) = ''Food'' \<and>
   first_position [lunch, ticket] ''Food'' \<le> first_position [lunch, ticket] ''Transport''"
proof -
  define C where "C = agent_with [lunch, ticket] (ai_says ''Food'')"
  have esC: "expenses (state C) = [lunch, ticket]"
    by (simp add: C_def agent_with_def constructor_def)
  have l6: "list_all (\<lambda>e. category e \<notin> set object_prototype_names) (expenses (state C))"
    unfolding esC using plain_pair by simp
  have l7: "list_all (\<lambda>e. is_finite (amount e)) (expenses (state C))"
    unfolding esC using plain_pair by simp
  have l8: "list_all (\<lambda>e. \<not> is_array_index (category e)) (expenses (state C))"
    unfolding esC using plain_pair by simp
  note tC = C4_amended [OF l6 [unfolded list_all_iff] l7 [unfolded list_all_iff], unfolded esC]
  have topC: "topCategory (fst (getSpendingContext C)) = ''Food''"
    unfolding C_def by (rule ctx_pair_top)
  have "topAmount (fst (getSpendingContext C)) = Finite 5"
    using tC topC totals_pair by simp
  then have "ticket \<in> set [lunch, ticket] \<and>
        category_total [lunch, ticket] (category ticket) = topAmount (fst (getSpendingContext C))"
    using totals_pair by (simp add: ticket_def expense_of_def)
  then have "first_position [lunch, ticket] (topCategory (fst (getSpendingContext C)))
               \<le> first_position [lunch, ticket] (category ticket)"
    using tC l8 [unfolded esC list_all_iff] by blast
  then have w9: "first_position [lunch, ticket] ''Food'' \<le> first_position [lunch, ticket] ''Transport''"
    by (simp add: topC ticket_def expense_of_def)
  define A where "A = agent_with [lunch, ticket, locker] (ai_says ''Food'')"
  define B where "B = agent_with small_expenses (ai_says ''Food'')"
  have esA: "expenses (state A) = [lunch, ticket, locker]"
    by (simp add: A_def agent_with_def constructor_def)
  have esB: "expenses (state B) = small_expenses"
    by (simp add: B_def agent_with_def constructor_def)
  have l1: "list_all (\<lambda>e. category e \<notin> set object_prototype_names) (expenses (state A))"
    unfolding esA using plain_three by simp
  have l2: "list_all (\<lambda>e. is_finite (amount e)) (expenses (state A))"
    unfolding esA using plain_three by simp
  have l3: "list_all (\<lambda>e. category e \<notin> set object_prototype_names) (expenses (state B))"
    unfolding esB using plain_small by simp
  have l4: "list_all (\<lambda>e. is_finite (amount e)) (expenses (state B))"
    unfolding esB using plain_small by simp
  have l5: "list_all (\<lambda>e. \<not> is_array_index (category e)) (expenses (state B))"
    unfolding esB using plain_small by simp
  note tA = C4_amended [OF l1 [unfolded list_all_iff] l2 [unfolded list_all_iff], unfolded esA]
  note tB = C4_amended [OF l3 [unfolded list_all_iff] l4 [unfolded list_all_iff], unfolded esB]
  have topA: "topCategory (fst (getSpendingContext A)) = ''7''"
    unfolding A_def by (rule ctx_three_top)
  have topB: "topCategory (fst (getSpendingContext B)) = ''Food''"
    unfolding B_def by (rule ctx_small)
  have w1: "totalSpent (fst (getSpendingContext A)) = Finite 15"
    using tA [THEN conjunct1] totals_three by simp
  have w2: "expenseCount (fst (getSpendingContext A)) = 3"
    using tA by simp
  have w3: "recentExpenses (fst (getSpendingContext A)) = [lunch, ticket, locker]"
    using tA by (simp add: slice_last_def)
  have neA: "[lunch, ticket, locker] \<noteq> []" by simp
  have neB: "small_expenses \<noteq> []" by (simp add: small_expenses_def)
  note mA = tA [THEN conjunct2, THEN conjunct2, THEN conjunct2, THEN conjunct2, rule_format, OF neA]
  note mB = tB [THEN conjunct2, THEN conjunct2, THEN conjunct2, THEN conjunct2, rule_format, OF neB]
  have w4: "topAmount (fst (getSpendingContext A)) = Finite 5"
    using mA [THEN conjunct2, THEN conjunct1] topA totals_three by simp
  have "lunch \<in> set [lunch, ticket, locker] \<and>
        category_total [lunch, ticket, locker] (category lunch) = topAmount (fst (getSpendingContext A)) \<and>
        category lunch \<noteq> topCategory (fst (getSpendingContext A))"
    using w4 topA totals_three by (simp add: lunch_def expense_of_def)
  then have "enumerated_before [lunch, ticket, locker] (topCategory (fst (getSpendingContext A))) (category lunch)"
    using tA by blast
  then have w5: "enumerated_before [lunch, ticket, locker] ''7'' ''Food''"
    by (simp add: topA lunch_def expense_of_def)
  have w6: "totalSpent (fst (getSpendingContext B)) = Finite (1351079888211149 / 1125899906842624)"
    using tB [THEN conjunct1] sums_small by simp
  have w7: "topAmount (fst (getSpendingContext B)) = Finite (5404319552844596 / 9007199254740992)"
    using mB [THEN conjunct2, THEN conjunct1] topB totals_small [THEN conjunct1] by simp
  have w8: "js_less (category_total small_expenses ''Transport'') (topAmount (fst (getSpendingContext B)))"
    using mB [THEN conjunct2, THEN conjunct1] topB sums_small [THEN conjunct2] by simp
  have ne: "expenses (state A) \<noteq> []" by (simp add: esA)
  show ?thesis
    using l1 l2 ne w1 w2 w3 topA w4 w5 l3 l4 l5 w6 topB w7 w8 l8 topC w9
    unfolding A_def B_def C_def
    by - (intro conjI; assumption)
qed

end
